theory Spec2Isabelle
  imports Main
begin

section \<open>Values, errors and the world the program runs in\<close>

text \<open>
  The program is Python: a client for three HTTP endpoints
  (\<^verbatim>\<open>CollectRedditData.py\<close>), a factory (\<^verbatim>\<open>CollectDataFactory.py\<close>), two file
  exporters (\<^verbatim>\<open>export_to_json.py\<close>) and a driver (\<^verbatim>\<open>run_retrieval.py\<close>).

  A parsed JSON document is a value of \<open>json\<close>. A Python \<open>dict\<close> keeps its keys in
  insertion order, so an object is an association list. The program never computes
  with numbers inside a payload, and numbers with a fraction are left out.
  A \<open>string\<close> stands for a Python \<open>str\<close>, one \<open>char\<close> per character.
\<close>

datatype json =
    JNull
  | JBool bool
  | JInt int
  | JString string
  | JArray "json list"
  | JObject "(string \<times> json) list"

text \<open>
  The exceptions that can travel through the program. \<open>ConnectionError\<close> stands for
  what \<^verbatim>\<open>requests.get\<close> raises that no \<^verbatim>\<open>except\<close> clause of the program names.
\<close>

datatype py_error =
    JSONDecodeError
  | HTTPError string
  | ConnectionError
  | UnboundLocalError
  | KeyError string
  | TypeError
  | AttributeError
  | IndexError
  | OverflowError

text \<open>
  A response of \<^verbatim>\<open>requests.get\<close>: what its \<^verbatim>\<open>.json()\<close> parses the body to, or \<open>None\<close>
  when the body is not JSON (then \<^verbatim>\<open>.json()\<close> raises \<open>JSONDecodeError\<close>).
\<close>

datatype response = Response "json option"

datatype outcome = Returns response | Raises py_error

text \<open>
  A file on disk. \<open>Dumped j t\<close> is the text \<^verbatim>\<open>json.dump\<close> writes for the document \<open>j\<close>,
  followed by the text \<open>t\<close> appended after it; \<^verbatim>\<open>json.load\<close> gives \<open>j\<close> back when \<open>t\<close> is
  white space only. \<open>Raw t\<close> is any other text, which the model takes not to parse as
  JSON: the program writes such files only under names ending in \<^verbatim>\<open>.txt\<close> and loads
  only names ending in \<^verbatim>\<open>.json\<close>.
\<close>

datatype content = Dumped json string | Raw string

text \<open>The calls of the client's operations and of the JSON exporter, as they are entered.\<close>

datatype call =
    Get_submissions string string string string
  | Get_comment_ids json
  | Get_comments "json list"
  | Build_json_file json string

text \<open>
  The world: \<open>net n url\<close> is what the \<open>n\<close>-th call of \<^verbatim>\<open>requests.get\<close> (counted from 0)
  does when it is sent \<open>url\<close>; \<open>requests\<close> are the URLs requested so far; \<open>slept\<close> the
  seconds spent in \<^verbatim>\<open>time.sleep\<close>; \<open>log_lines\<close> the messages given to \<^verbatim>\<open>logging.info\<close>;
  \<open>files\<close> the working directory; \<open>calls\<close> records the operations entered so far, and
  no operation reads it.
\<close>

record world =
  net :: "nat \<Rightarrow> string \<Rightarrow> outcome"
  requests :: "string list"
  slept :: nat
  log_lines :: "string list"
  files :: "string \<rightharpoonup> content"
  calls :: "call list"

definition fresh_world :: "(nat \<Rightarrow> string \<Rightarrow> outcome) \<Rightarrow> world" where
  "fresh_world n = \<lparr>net = n, requests = [], slept = 0, log_lines = [], files = Map.empty, calls = []\<rparr>"

definition requests_get :: "string \<Rightarrow> world \<Rightarrow> outcome \<times> world" where
  "requests_get url w = (net w (length (requests w)) url, w\<lparr>requests := requests w @ [url]\<rparr>)"

definition time_sleep :: "nat \<Rightarrow> world \<Rightarrow> world" where
  "time_sleep secs w = w\<lparr>slept := slept w + secs\<rparr>"

definition logging_info :: "string \<Rightarrow> world \<Rightarrow> world" where
  "logging_info msg w = w\<lparr>log_lines := log_lines w @ [msg]\<rparr>"

definition enter :: "call \<Rightarrow> world \<Rightarrow> world" where
  "enter c w = w\<lparr>calls := calls w @ [c]\<rparr>"

fun response_json :: "response \<Rightarrow> py_error + json" where
  "response_json (Response None) = Inl JSONDecodeError"
| "response_json (Response (Some j)) = Inr j"

section \<open>Python's operations on values\<close>

text \<open>\<^verbatim>\<open>x[key]\<close> with a string key: a lookup in a dict, \<open>TypeError\<close> on anything else.\<close>

fun subscript :: "json \<Rightarrow> string \<Rightarrow> py_error + json" where
  "subscript (JObject kvs) k = (case map_of kvs k of None \<Rightarrow> Inl (KeyError k) | Some v \<Rightarrow> Inr v)"
| "subscript _ k = Inl TypeError"

text \<open>
  \<^verbatim>\<open>for x in v\<close>: the elements of a list, the keys of a dict, the characters of a string;
  \<open>TypeError\<close> on a value that is not iterable.
\<close>

fun py_iter :: "json \<Rightarrow> py_error + json list" where
  "py_iter (JArray xs) = Inr xs"
| "py_iter (JObject kvs) = Inr (map (\<lambda>kv. JString (fst kv)) kvs)"
| "py_iter (JString s) = Inr (map (\<lambda>c. JString [c]) s)"
| "py_iter _ = Inl TypeError"

text \<open>A list comprehension \<^verbatim>\<open>[f(x) for x in xs]\<close> stops at the first element that raises.\<close>

fun comprehension :: "('a \<Rightarrow> py_error + 'b) \<Rightarrow> 'a list \<Rightarrow> py_error + 'b list" where
  "comprehension f [] = Inr []"
| "comprehension f (x # xs) =
     (case f x of
        Inl e \<Rightarrow> Inl e
      | Inr y \<Rightarrow> (case comprehension f xs of Inl e \<Rightarrow> Inl e | Inr ys \<Rightarrow> Inr (y # ys)))"

text \<open>\<^verbatim>\<open>xs[i]\<close> for \<open>i \<ge> 0\<close>: \<open>IndexError\<close> out of range.\<close>

definition index :: "'a list \<Rightarrow> nat \<Rightarrow> py_error + 'a" where
  "index xs i = (if i < length xs then Inr (xs ! i) else Inl IndexError)"

text \<open>\<^verbatim>\<open>','.join(xs)\<close>: \<open>TypeError\<close> when an item is not a string.\<close>

fun str_items :: "json list \<Rightarrow> py_error + string list" where
  "str_items [] = Inr []"
| "str_items (JString s # xs) = (case str_items xs of Inl e \<Rightarrow> Inl e | Inr ss \<Rightarrow> Inr (s # ss))"
| "str_items (_ # xs) = Inl TypeError"

fun intersperse_comma :: "string list \<Rightarrow> string" where
  "intersperse_comma [] = []"
| "intersperse_comma [s] = s"
| "intersperse_comma (s # t # ss) = s @ '','' @ intersperse_comma (t # ss)"

definition join_comma :: "json list \<Rightarrow> py_error + string" where
  "join_comma xs = (case str_items xs of Inl e \<Rightarrow> Inl e | Inr ss \<Rightarrow> Inr (intersperse_comma ss))"

text \<open>\<^verbatim>\<open>str(n)\<close> of an integer: its decimal digits, after a minus sign when negative.\<close>

definition digit_char :: "nat \<Rightarrow> char" where
  "digit_char d = ''0123456789'' ! d"

function digits :: "nat \<Rightarrow> string" where
  "digits n = (if n < 10 then [digit_char n] else digits (n div 10) @ [digit_char (n mod 10)])"
  by pat_completeness auto
termination
  by (relation "measure id") auto

declare digits.simps [simp del]

definition str_int :: "int \<Rightarrow> string" where
  "str_int i = (if i < 0 then CHR ''-'' # digits (nat (- i)) else digits (nat i))"

text \<open>
  \<^verbatim>\<open>repr(s)\<close> of a string: between single quotes, or double quotes when the string holds
  a single quote and no double quote; the quote and the backslash are escaped, tab,
  newline and carriage return are written \<^verbatim>\<open>\t\<close>, \<^verbatim>\<open>\n\<close>, \<^verbatim>\<open>\r\<close>, and the other characters
  that Python does not print (below 32, from 127 to 160, and 173) as \<^verbatim>\<open>\x\<close> and two
  hexadecimal digits.
\<close>

definition hex_digit :: "nat \<Rightarrow> char" where
  "hex_digit d = ''0123456789abcdef'' ! d"

definition repr_char :: "char \<Rightarrow> char \<Rightarrow> string" where
  "repr_char quote ch =
     (if ch = quote \<or> ch = CHR 0x5C then [CHR 0x5C, ch]
      else if ch = CHR 0x09 then [CHR 0x5C, CHR ''t'']
      else if ch = CHR 0x0A then [CHR 0x5C, CHR ''n'']
      else if ch = CHR 0x0D then [CHR 0x5C, CHR ''r'']
      else if (of_char ch :: nat) < 32 \<or> (127 \<le> (of_char ch :: nat) \<and> (of_char ch :: nat) \<le> 160)
              \<or> (of_char ch :: nat) = 173
      then [CHR 0x5C, CHR ''x'', hex_digit (of_char ch div 16), hex_digit (of_char ch mod 16)]
      else [ch])"

definition repr_str :: "string \<Rightarrow> string" where
  "repr_str s =
     (let quote = (if CHR 0x27 \<in> set s \<and> CHR 0x22 \<notin> set s then CHR 0x22 else CHR 0x27)
      in quote # concat (map (repr_char quote) s) @ [quote])"

fun separated :: "string \<Rightarrow> string list \<Rightarrow> string" where
  "separated sep [] = []"
| "separated sep [s] = s"
| "separated sep (s # t # ss) = s @ sep @ separated sep (t # ss)"

text \<open>
  \<^verbatim>\<open>repr(v)\<close> of a parsed JSON value, and \<^verbatim>\<open>str(v)\<close>, which is what an f-string puts for
  \<^verbatim>\<open>{v}\<close>: a string stands for itself, any other value is written as \<^verbatim>\<open>repr\<close> writes it.
\<close>

primrec py_repr :: "json \<Rightarrow> string" where
  "py_repr JNull = ''None''"
| "py_repr (JBool b) = (if b then ''True'' else ''False'')"
| "py_repr (JInt i) = str_int i"
| "py_repr (JString s) = repr_str s"
| "py_repr (JArray xs) = ''['' @ separated '', '' (map py_repr xs) @ '']''"
| "py_repr (JObject kvs) =
     ''{'' @ separated '', ''
              (map (\<lambda>kr. repr_str (fst kr) @ '': '' @ snd kr) (map (map_prod id py_repr) kvs)) @ ''}''"

definition py_str :: "json \<Rightarrow> string" where
  "py_str v = (case v of JString s \<Rightarrow> s | _ \<Rightarrow> py_repr v)"

section \<open>The file exporters (export\_to\_json.py)\<close>

definition is_json_space :: "char \<Rightarrow> bool" where
  "is_json_space c = (c = CHR '' '' \<or> c = CHR 0x09 \<or> c = CHR 0x0A \<or> c = CHR 0x0D)"

text \<open>\<^verbatim>\<open>json.load\<close> of a file: the document, when nothing but white space follows it.\<close>

fun json_load :: "content \<Rightarrow> py_error + json" where
  "json_load (Dumped j t) = (if filter (\<lambda>c. \<not> is_json_space c) t = [] then Inr j else Inl JSONDecodeError)"
| "json_load (Raw t) = Inl JSONDecodeError"

text \<open>
  \<^verbatim>\<open>build_json_file(new_data, file_export_name)\<close>. A file that does not exist is written
  with \<^verbatim>\<open>json.dump(new_data, f)\<close>. A file that exists is loaded, \<^verbatim>\<open>existing_data.append\<close>
  is called (only a list has it) and the result is written back.
\<close>

definition build_json_file :: "json \<Rightarrow> string \<Rightarrow> world \<Rightarrow> (py_error + unit) \<times> world" where
  "build_json_file new_data file_export_name w0 =
     (let w = enter (Build_json_file new_data file_export_name) w0;
          name = file_export_name @ ''.json''
      in case files w name of
           None \<Rightarrow> (Inr (), w\<lparr>files := (files w)(name \<mapsto> Dumped new_data [])\<rparr>)
         | Some f \<Rightarrow>
             (case json_load f of
                Inl e \<Rightarrow> (Inl e, w)
              | Inr (JArray existing_data) \<Rightarrow>
                  (Inr (), w\<lparr>files := (files w)(name \<mapsto> Dumped (JArray (existing_data @ [new_data])) [])\<rparr>)
              | Inr _ \<Rightarrow> (Inl AttributeError, w)))"

text \<open>
  Writing \<open>t\<close> to a file opened in append mode: the file is created when it does not
  exist, and \<open>t\<close> is put after what it holds.
\<close>

definition append_text :: "string \<Rightarrow> string \<Rightarrow> (string \<rightharpoonup> content) \<Rightarrow> (string \<rightharpoonup> content)" where
  "append_text name t fs =
     fs(name \<mapsto>
       (case fs name of
          None \<Rightarrow> Raw t
        | Some (Raw u) \<Rightarrow> Raw (u @ t)
        | Some (Dumped j u) \<Rightarrow> Dumped j (u @ t)))"

text \<open>
  \<^verbatim>\<open>build_error_text_file(new_data, file_export_name)\<close>: opens the file in append mode
  and writes the text and a newline.
\<close>

definition build_error_text_file :: "string \<Rightarrow> string \<Rightarrow> world \<Rightarrow> world" where
  "build_error_text_file new_data file_export_name w =
     w\<lparr>files := append_text (file_export_name @ ''.txt'') (new_data @ [CHR 0x0A]) (files w)\<rparr>"

text \<open>
  The lines of a text: the pieces that end in a newline, and what follows the last.
  \<open>file_lines\<close> gives the lines of a text file, none for a file that does not exist;
  the lines that \<^verbatim>\<open>json.dump\<close> writes for a document are not modelled.
\<close>

fun text_lines :: "string \<Rightarrow> string \<Rightarrow> string list" where
  "text_lines acc [] = (if acc = [] then [] else [acc])"
| "text_lines acc (c # cs) = (if c = CHR 0x0A then acc # text_lines [] cs else text_lines (acc @ [c]) cs)"

fun file_lines :: "content option \<Rightarrow> string list option" where
  "file_lines None = Some []"
| "file_lines (Some (Raw t)) = Some (text_lines [] t)"
| "file_lines (Some (Dumped j t)) = None"

section \<open>The client (CollectRedditData.py)\<close>

text \<open>
  \<^verbatim>\<open>CollectRedditPSIOData\<close> has two attributes, set by \<^verbatim>\<open>__init__\<close> to 2 and 500 and
  never assigned again; neither is negative.
\<close>

record client =
  time_delay :: nat
  number_results :: nat

definition CollectRedditPSIOData :: client where
  "CollectRedditPSIOData = \<lparr>time_delay = 2, number_results = 500\<rparr>"

text \<open>
  The two \<^verbatim>\<open>except\<close> clauses that every retry loop of the client has, with the URL of
  the request and the name of the stage's error file. \<open>Some w'\<close>: the exception is caught,
  the loop goes on (\<^verbatim>\<open>continue\<close>) in \<open>w'\<close>. \<open>None\<close>: no clause matches and the exception
  leaves the method. Only the \<open>JSONDecodeError\<close> clause calls \<^verbatim>\<open>build_error_text_file\<close>.
\<close>

fun except_clauses :: "string \<Rightarrow> string \<Rightarrow> py_error \<Rightarrow> world \<Rightarrow> world option" where
  "except_clauses url error_file JSONDecodeError w =
     Some (logging_info ''Retrying request.''
            (build_error_text_file url error_file
              (logging_info ''Export error file.''
                (logging_info (''Failed to parse: '' @ url) w))))"
| "except_clauses url error_file (HTTPError msg) w =
     Some (logging_info ''Retrying request.'' (logging_info (''HTTP error: '' @ msg) w))"
| "except_clauses url error_file e w = None"

subsection \<open>get\_submissions\<close>

definition submissions_api_call :: "client \<Rightarrow> string \<Rightarrow> string \<Rightarrow> string \<Rightarrow> string \<Rightarrow> string" where
  "submissions_api_call c query subreddit before_date after_date =
     ''https://api.pushshift.io/reddit/search/submission/?q='' @ query @
     ''&subreddit='' @ subreddit @ ''&after='' @ before_date @ ''&before='' @ after_date @
     ''&limit='' @ str_int (int (number_results c))"

text \<open>
  The loop \<^verbatim>\<open>for retry in range(num_retries + 1)\<close>, by the number of attempts left.
  Its value is the local variable \<^verbatim>\<open>submissions_requests\<close> when the loop is left:
  \<open>Some r\<close> after \<^verbatim>\<open>break\<close>, \<open>None\<close> (never assigned) when the attempts run out.
  Only \<^verbatim>\<open>requests.get\<close> and \<^verbatim>\<open>time.sleep\<close> are inside the \<^verbatim>\<open>try\<close>.
\<close>

fun submissions_loop :: "nat \<Rightarrow> client \<Rightarrow> string \<Rightarrow> world \<Rightarrow> (py_error + response option) \<times> world" where
  "submissions_loop 0 c url w = (Inr None, w)"
| "submissions_loop (Suc n) c url w =
     (case requests_get url w of
        (Returns r, w1) \<Rightarrow> (Inr (Some r), time_sleep (time_delay c) w1)
      | (Raises e, w1) \<Rightarrow>
          (case except_clauses url ''submissions_error'' e w1 of
             Some w2 \<Rightarrow> submissions_loop n c url w2
           | None \<Rightarrow> (Inl e, w1)))"

text \<open>\<^verbatim>\<open>return submissions_requests.json()\<close> is after the loop, outside the \<^verbatim>\<open>try\<close>.\<close>

definition get_submissions ::
  "client \<Rightarrow> string \<Rightarrow> string \<Rightarrow> string \<Rightarrow> string \<Rightarrow> int \<Rightarrow> world \<Rightarrow> (py_error + json) \<times> world" where
  "get_submissions c query subreddit before_date after_date num_retries w =
     (case submissions_loop (nat (num_retries + 1)) c
             (submissions_api_call c query subreddit before_date after_date)
             (enter (Get_submissions query subreddit before_date after_date) w) of
        (Inl e, w1) \<Rightarrow> (Inl e, w1)
      | (Inr None, w1) \<Rightarrow> (Inl UnboundLocalError, w1)
      | (Inr (Some r), w1) \<Rightarrow> (response_json r, w1))"

subsection \<open>get\_comments\_id\_from\_submissions\_id\<close>

text \<open>
  The method formats \<^verbatim>\<open>submission_id\<close> into the URL and stores it in the pairs as it is
  given. The annotation says \<^verbatim>\<open>str\<close>, but nothing checks it, and the driver passes the
  \<^verbatim>\<open>id\<close> of a submission whatever JSON value it is.
\<close>

definition submission_id_api_call :: "json \<Rightarrow> string" where
  "submission_id_api_call submission_id =
     ''https://api.pushshift.io/reddit/submission/comment_ids/'' @ py_str submission_id"

definition id_pair :: "json \<Rightarrow> json \<Rightarrow> json" where
  "id_pair submission_id comment_id =
     JObject [(''submission_id'', submission_id), (''comment_id'', comment_id)]"

text \<open>
  Here \<^verbatim>\<open>.json()["data"]\<close> and the inner \<^verbatim>\<open>for\<close> are inside the \<^verbatim>\<open>try\<close>, so a body that is
  not JSON is caught; a \<open>KeyError\<close> or \<open>TypeError\<close> is not. The value is the list
  \<^verbatim>\<open>list_comments_submission_id\<close> when the loop is left.
\<close>

fun comment_ids_loop ::
  "nat \<Rightarrow> client \<Rightarrow> json \<Rightarrow> json list \<Rightarrow> world \<Rightarrow> (py_error + json list) \<times> world" where
  "comment_ids_loop 0 c submission_id acc w = (Inr acc, w)"
| "comment_ids_loop (Suc n) c submission_id acc w =
     (case requests_get (submission_id_api_call submission_id) w of
        (Returns r, w1) \<Rightarrow>
          (case response_json r of
             Inl e \<Rightarrow>
               (case except_clauses (submission_id_api_call submission_id) ''submission_id_error'' e
                       (time_sleep (time_delay c) w1) of
                  Some w2 \<Rightarrow> comment_ids_loop n c submission_id acc w2
                | None \<Rightarrow> (Inl e, time_sleep (time_delay c) w1))
           | Inr j \<Rightarrow>
               (case subscript j ''data'' of
                  Inl e \<Rightarrow> (Inl e, time_sleep (time_delay c) w1)
                | Inr d \<Rightarrow>
                    (case py_iter d of
                       Inl e \<Rightarrow> (Inl e, time_sleep (time_delay c) w1)
                     | Inr ids \<Rightarrow>
                         (Inr (acc @ map (id_pair submission_id) ids),
                          time_sleep (time_delay c) w1))))
      | (Raises e, w1) \<Rightarrow>
          (case except_clauses (submission_id_api_call submission_id) ''submission_id_error'' e w1 of
             Some w2 \<Rightarrow> comment_ids_loop n c submission_id acc w2
           | None \<Rightarrow> (Inl e, w1)))"

definition get_comments_id_from_submissions_id ::
  "client \<Rightarrow> json \<Rightarrow> int \<Rightarrow> world \<Rightarrow> (py_error + json list) \<times> world" where
  "get_comments_id_from_submissions_id c submission_id num_retries w =
     (case comment_ids_loop (nat (num_retries + 1)) c submission_id []
             (enter (Get_comment_ids submission_id) w) of
        (Inl e, w1) \<Rightarrow> (Inl e, w1)
      | (Inr list_comments_submission_id, w1) \<Rightarrow>
          (if length list_comments_submission_id = 0
           then (Inr [id_pair submission_id (JString ''N/A'')], w1)
           else (Inr list_comments_submission_id, w1)))"

subsection \<open>get\_comments\<close>

definition comments_api_call :: "string \<Rightarrow> string" where
  "comments_api_call strings_comments =
     ''https://api.pushshift.io/reddit/search/comment?ids='' @ strings_comments"

fun comments_loop :: "nat \<Rightarrow> client \<Rightarrow> string \<Rightarrow> world \<Rightarrow> (py_error + response option) \<times> world" where
  "comments_loop 0 c url w = (Inr None, w)"
| "comments_loop (Suc n) c url w =
     (case requests_get url w of
        (Returns r, w1) \<Rightarrow> (Inr (Some r), time_sleep (time_delay c) w1)
      | (Raises e, w1) \<Rightarrow>
          (case except_clauses url ''comment_error'' e w1 of
             Some w2 \<Rightarrow> comments_loop n c url w2
           | None \<Rightarrow> (Inl e, w1)))"

definition get_comments :: "client \<Rightarrow> json list \<Rightarrow> int \<Rightarrow> world \<Rightarrow> (py_error + json) \<times> world" where
  "get_comments c list_comments_ids num_retries w =
     (case join_comma list_comments_ids of
        Inl e \<Rightarrow> (Inl e, enter (Get_comments list_comments_ids) w)
      | Inr strings_comments \<Rightarrow>
          (case comments_loop (nat (num_retries + 1)) c (comments_api_call strings_comments)
                  (enter (Get_comments list_comments_ids) w) of
             (Inl e, w1) \<Rightarrow> (Inl e, w1)
           | (Inr None, w1) \<Rightarrow> (Inl UnboundLocalError, w1)
           | (Inr (Some r), w1) \<Rightarrow> (response_json r, w1)))"

section \<open>The factory (CollectDataFactory.py)\<close>

text \<open>
  \<^verbatim>\<open>str.lower()\<close> on the letters A to Z. Python also lowers letters outside ASCII; none
  of them becomes a character of the one key the factory compares with.
\<close>

definition lower_char :: "char \<Rightarrow> char" where
  "lower_char ch =
     (case map_of (zip ''ABCDEFGHIJKLMNOPQRSTUVWXYZ'' ''abcdefghijklmnopqrstuvwxyz'') ch of
        None \<Rightarrow> ch
      | Some l \<Rightarrow> l)"

definition lower :: "string \<Rightarrow> string" where
  "lower s = map lower_char s"

definition get_data_source :: "string \<Rightarrow> client option" where
  "get_data_source data_source =
     (if lower data_source = ''reddit-historical'' then Some CollectRedditPSIOData else None)"

section \<open>The driver (run\_retrieval.py)\<close>

subsection \<open>make\_date\_range\<close>

text \<open>
  A \<^verbatim>\<open>datetime.date\<close> is given by its proleptic Gregorian ordinal (\<^verbatim>\<open>date.toordinal()\<close>),
  from 1 for 0001-01-01 to 3652059 for 9999-12-31; 1970-01-01 is day 719163.
  \<^verbatim>\<open>end_date - start_date\<close> is a \<^verbatim>\<open>timedelta\<close> whose \<^verbatim>\<open>days\<close> is the difference of the
  ordinals, and \<^verbatim>\<open>date + timedelta(days=n)\<close> raises \<open>OverflowError\<close> outside the range.
\<close>

type_synonym date = int

definition valid_date :: "date \<Rightarrow> bool" where
  "valid_date d = (1 \<le> d \<and> d \<le> 3652059)"

definition date_add_days :: "date \<Rightarrow> int \<Rightarrow> py_error + date" where
  "date_add_days d n = (if valid_date (d + n) then Inr (d + n) else Inl OverflowError)"

text \<open>
  \<^verbatim>\<open>time.mktime(day.timetuple())\<close> is the platform's: what it returns for midnight of a day
  depends on the local zone and, where that midnight does not exist or exists twice, on
  the C library and on the calls made before. So it is a parameter, with no property
  assumed: \<open>mktime k d\<close> is what the call of the iteration \<open>k\<close> returns for midnight of day
  \<open>d\<close>. It returns a whole number of seconds, which \<^verbatim>\<open>int\<close> does not change, and with a
  64-bit \<^verbatim>\<open>time_t\<close> it raises for no \<^verbatim>\<open>datetime.date\<close>. The iteration is the number of time
  stamps appended so far.
\<close>

fun date_range_loop ::
  "(nat \<Rightarrow> date \<Rightarrow> int) \<Rightarrow> date \<Rightarrow> int list \<Rightarrow> string list \<Rightarrow> py_error + string list" where
  "date_range_loop mktime start_date [] time_stamps = Inr time_stamps"
| "date_range_loop mktime start_date (num_days # rest) time_stamps =
     (case date_add_days start_date num_days of
        Inl e \<Rightarrow> Inl e
      | Inr day \<Rightarrow>
          date_range_loop mktime start_date rest
            (time_stamps @ [str_int (mktime (length time_stamps) day)]))"

text \<open>\<^verbatim>\<open>range(time_delta.days + 1)\<close> is \<open>[0..days]\<close>, empty when \<open>days + 1 \<le> 0\<close>.\<close>

definition make_date_range :: "(nat \<Rightarrow> date \<Rightarrow> int) \<Rightarrow> date \<Rightarrow> date \<Rightarrow> py_error + string list" where
  "make_date_range mktime start_date end_date =
     date_range_loop mktime start_date [0..end_date - start_date] []"

subsection \<open>run\_reddit\_psio\_query\<close>

text \<open>
  Statements in sequence: \<open>then_do m f\<close> runs \<open>m\<close> and, unless it raised, runs \<open>f\<close> on
  its value in the world \<open>m\<close> left. \<open>evaluate r\<close> is an expression that changes nothing.
\<close>

definition then_do ::
  "(world \<Rightarrow> (py_error + 'a) \<times> world) \<Rightarrow> ('a \<Rightarrow> world \<Rightarrow> (py_error + 'b) \<times> world) \<Rightarrow>
   world \<Rightarrow> (py_error + 'b) \<times> world" where
  "then_do m f w = (case m w of (Inl e, w1) \<Rightarrow> (Inl e, w1) | (Inr x, w1) \<Rightarrow> f x w1)"

definition evaluate :: "py_error + 'a \<Rightarrow> world \<Rightarrow> (py_error + 'a) \<times> world" where
  "evaluate r w = (r, w)"

text \<open>
  The body of \<^verbatim>\<open>for sub_id in subs_id\<close>. The client's methods are called with their
  default \<^verbatim>\<open>num_retries = 1\<close>.
\<close>

definition for_sub_id_body :: "client \<Rightarrow> string \<Rightarrow> json \<Rightarrow> world \<Rightarrow> (py_error + unit) \<times> world" where
  "for_sub_id_body reddit_historical curr_datetime sub_id =
     then_do (get_comments_id_from_submissions_id reddit_historical sub_id 1) (\<lambda>subs_id_to_comm_id.
     then_do (build_json_file (JArray subs_id_to_comm_id)
                (''submission_id_to_comment_id_'' @ curr_datetime)) (\<lambda>_.
     then_do (evaluate (comprehension (\<lambda>comment. subscript comment ''comment_id'')
                subs_id_to_comm_id)) (\<lambda>list_comments_ids.
     then_do (evaluate (index list_comments_ids 0)) (\<lambda>first_id.
       if first_id \<noteq> JString ''N/A''
       then then_do (get_comments reddit_historical list_comments_ids 1) (\<lambda>comments.
            then_do (evaluate (subscript comments ''data'')) (\<lambda>data.
              build_json_file data (''comments_'' @ curr_datetime)))
       else evaluate (Inr ())))))"

fun for_sub_id :: "client \<Rightarrow> string \<Rightarrow> json list \<Rightarrow> world \<Rightarrow> (py_error + unit) \<times> world" where
  "for_sub_id reddit_historical curr_datetime [] = evaluate (Inr ())"
| "for_sub_id reddit_historical curr_datetime (sub_id # subs_id) =
     then_do (for_sub_id_body reddit_historical curr_datetime sub_id)
       (\<lambda>_. for_sub_id reddit_historical curr_datetime subs_id)"

text \<open>
  The body of \<^verbatim>\<open>for idx in range(size_date_range-1)\<close>. \<open>reddit_historical\<close> is what the
  factory returned; calling a method of \<open>None\<close> raises \<open>AttributeError\<close>.
\<close>

definition for_idx_body ::
  "client option \<Rightarrow> string \<Rightarrow> string \<Rightarrow> string \<Rightarrow> string list \<Rightarrow> nat \<Rightarrow> world \<Rightarrow>
   (py_error + unit) \<times> world" where
  "for_idx_body reddit_historical curr_datetime query subreddit date_range idx =
     then_do (evaluate (index date_range idx)) (\<lambda>start_date.
     then_do (evaluate (index date_range (idx + 1))) (\<lambda>end_date.
       case reddit_historical of
         None \<Rightarrow> evaluate (Inl AttributeError)
       | Some c \<Rightarrow>
           then_do (get_submissions c query subreddit start_date end_date 1) (\<lambda>submissions.
           then_do (evaluate (subscript submissions ''data'')) (\<lambda>data.
           then_do (build_json_file data (''submissions_'' @ curr_datetime)) (\<lambda>_.
           then_do (evaluate (py_iter data)) (\<lambda>items.
           then_do (evaluate (comprehension (\<lambda>submission_id. subscript submission_id ''id'') items))
             (\<lambda>subs_id. for_sub_id c curr_datetime subs_id)))))))"

fun for_idx ::
  "client option \<Rightarrow> string \<Rightarrow> string \<Rightarrow> string \<Rightarrow> string list \<Rightarrow> nat list \<Rightarrow> world \<Rightarrow>
   (py_error + unit) \<times> world" where
  "for_idx reddit_historical curr_datetime query subreddit date_range [] = evaluate (Inr ())"
| "for_idx reddit_historical curr_datetime query subreddit date_range (idx # rest) =
     then_do (for_idx_body reddit_historical curr_datetime query subreddit date_range idx)
       (\<lambda>_. for_idx reddit_historical curr_datetime query subreddit date_range rest)"

text \<open>
  \<^verbatim>\<open>run_reddit_psio_query(query, subreddit, start_date, end_date)\<close>, with the platform's \<open>mktime\<close>
  and on the day that \<^verbatim>\<open>datetime.datetime.now().strftime("%Y-%m-%d")\<close> prints as
  \<open>curr_datetime\<close>.
\<close>

definition run_reddit_psio_query ::
  "(nat \<Rightarrow> date \<Rightarrow> int) \<Rightarrow> string \<Rightarrow> string \<Rightarrow> string \<Rightarrow> date \<Rightarrow> date \<Rightarrow> world \<Rightarrow>
   (py_error + unit) \<times> world" where
  "run_reddit_psio_query mktime curr_datetime query subreddit start_date end_date =
     then_do (evaluate (make_date_range mktime start_date end_date)) (\<lambda>date_range.
       for_idx (get_data_source ''reddit-historical'') curr_datetime query subreddit date_range
         [0..<length date_range - 1])"

section \<open>What the claims speak of\<close>




text \<open>
  Case-insensitive equality of two strings, character by character, as the spec words
  the factory's comparison.
\<close>

fun same_ignoring_case :: "string \<Rightarrow> string \<Rightarrow> bool" where
  "same_ignoring_case [] [] = True"
| "same_ignoring_case (a # as) (b # bs) = (lower_char a = lower_char b \<and> same_ignoring_case as bs)"
| "same_ignoring_case _ _ = False"

text \<open>
  The calls a completed run of the driver may make, as the spec lists its steps.
  \<open>submission_steps\<close> reads the calls for the submission ids one after the other and
  gives back the calls that follow them: for each id, the fetch of its comment ids and
  the export of the mapping; then the fetch and the export of the comments, exactly
  when the first comment id of the mapping is not \<open>N/A\<close>.
\<close>

definition first_comment_id :: "json list \<Rightarrow> py_error + json" where
  "first_comment_id mapping =
     (case mapping of [] \<Rightarrow> Inl IndexError | pair # _ \<Rightarrow> subscript pair ''comment_id'')"

fun submission_steps :: "string \<Rightarrow> json list \<Rightarrow> call list \<Rightarrow> call list option" where
  "submission_steps today [] tr = Some tr"
| "submission_steps today (sub_id # subs_id) (Get_comment_ids sid # Build_json_file (JArray mapping) f # tr) =
     (if sub_id = sid \<and> f = ''submission_id_to_comment_id_'' @ today
      then if first_comment_id mapping = Inr (JString ''N/A'')
           then submission_steps today subs_id tr
           else (case tr of
                   Get_comments ids # Build_json_file d g # tr' \<Rightarrow>
                     if comprehension (\<lambda>pair. subscript pair ''comment_id'') mapping = Inr ids
                        \<and> g = ''comments_'' @ today
                     then submission_steps today subs_id tr'
                     else None
                 | _ \<Rightarrow> None)
      else None)"
| "submission_steps today (sub_id # subs_id) tr = None"

text \<open>
  \<open>window_steps\<close> reads the calls of a whole run over a list of day buckets: for each
  pair of consecutive time stamps one fetch of submissions for that window, the export
  of its \<open>data\<close>, and the steps for the ids of the submissions in \<open>data\<close>.
\<close>

fun window_steps :: "string \<Rightarrow> string \<Rightarrow> string \<Rightarrow> string list \<Rightarrow> call list \<Rightarrow> bool" where
  "window_steps today query subreddit (a # b # ds) (Get_submissions q s after before # Build_json_file dat f # tr) =
     (q = query \<and> s = subreddit \<and> after = a \<and> before = b \<and> f = ''submissions_'' @ today \<and>
      (case py_iter dat of
         Inl e \<Rightarrow> False
       | Inr items \<Rightarrow>
           (case comprehension (\<lambda>x. subscript x ''id'') items of
              Inl e \<Rightarrow> False
            | Inr subs_id \<Rightarrow>
                (case submission_steps today subs_id tr of
                   None \<Rightarrow> False
                 | Some tr' \<Rightarrow> window_steps today query subreddit (b # ds) tr'))))"
| "window_steps today query subreddit [a] [] = True"
| "window_steps today query subreddit [] [] = True"
| "window_steps today query subreddit ds tr = False"

fun is_get_submissions :: "call \<Rightarrow> bool" where
  "is_get_submissions (Get_submissions q s a b) = True"
| "is_get_submissions _ = False"

text \<open>
  The next \<open>k\<close> outcomes the network holds for requests to \<open>url\<close>, from the world \<open>w\<close> on.
\<close>

definition next_outcomes :: "world \<Rightarrow> string \<Rightarrow> nat \<Rightarrow> outcome list" where
  "next_outcomes w url k = map (\<lambda>i. net w (length (requests w) + i) url) [0..<k]"

text \<open>
  The exceptions the client's \<^verbatim>\<open>except\<close> clauses name. An attempt of fetch-submissions or
  fetch-comments fails inside the \<^verbatim>\<open>try\<close> when the request raises one of them; an attempt of
  fetch-comment-ids also when the body of the response is not JSON. \<open>decode_failure\<close>
  tells the failures that are JSON-decode failures, and \<open>attempt_log\<close> gives the messages
  a failed attempt logs.
\<close>

fun caught :: "py_error \<Rightarrow> bool" where
  "caught JSONDecodeError = True"
| "caught (HTTPError msg) = True"
| "caught e = False"

fun request_fails :: "outcome \<Rightarrow> bool" where
  "request_fails (Raises e) = caught e"
| "request_fails (Returns r) = False"

fun attempt_fails :: "outcome \<Rightarrow> bool" where
  "attempt_fails (Raises e) = caught e"
| "attempt_fails (Returns r) = (response_json r = Inl JSONDecodeError)"

fun decode_failure :: "outcome \<Rightarrow> bool" where
  "decode_failure (Raises e) = (e = JSONDecodeError)"
| "decode_failure (Returns r) = (response_json r = Inl JSONDecodeError)"

fun attempt_log :: "string \<Rightarrow> outcome \<Rightarrow> string list" where
  "attempt_log url (Raises (HTTPError msg)) = [''HTTP error: '' @ msg, ''Retrying request.'']"
| "attempt_log url out = [''Failed to parse: '' @ url, ''Export error file.'', ''Retrying request.'']"

text \<open>
  \<^verbatim>\<open>time.mktime\<close> in a zone that keeps one offset from UTC, \<open>off\<close> seconds east: midnight of
  day \<open>d\<close> is \<open>d - 719163\<close> whole days after the epoch, less the offset.
\<close>

definition fixed_offset :: "int \<Rightarrow> date \<Rightarrow> int" where
  "fixed_offset off d = (d - 719163) * 86400 - off"

text \<open>
  Networks and zones to run the program on. \<open>offline\<close>: every request fails to
  connect. \<open>scripted os\<close>: the \<open>n\<close>-th request gets the \<open>n\<close>-th outcome of \<open>os\<close>, as from a
  mock with a list of side effects. \<open>utc\<close>: \<^verbatim>\<open>time.mktime\<close> under \<^verbatim>\<open>TZ=UTC\<close>. \<open>apia\<close>: what
  CPython's \<^verbatim>\<open>time.mktime\<close> returns under \<^verbatim>\<open>TZ=Pacific/Apia\<close> for the midnights from
  2011-12-28 to 2012-01-01; the zone skipped the calendar day 2011-12-30 (day 734501)
  when it moved from 10 hours behind UTC to 14 hours ahead.
\<close>

definition offline :: "nat \<Rightarrow> string \<Rightarrow> outcome" where
  "offline n url = Raises ConnectionError"

definition scripted :: "outcome list \<Rightarrow> nat \<Rightarrow> string \<Rightarrow> outcome" where
  "scripted os n url = (if n < length os then os ! n else Raises ConnectionError)"

definition utc :: "nat \<Rightarrow> date \<Rightarrow> int" where
  "utc k d = fixed_offset 0 d"


text \<open>
  The answers to one run of the driver over one window: two submissions, the second with
  a number as its id; one comment id for the first of them, its comment, and no comment
  id for the second.
\<close>

definition one_day_script :: "outcome list" where
  "one_day_script =
     [Returns (Response (Some (JObject [(''data'',
        JArray [JObject [(''id'', JString ''s1'')], JObject [(''id'', JInt 7)]])]))),
      Returns (Response (Some (JObject [(''data'', JArray [JString ''c1''])]))),
      Returns (Response (Some (JObject [(''data'', JArray [JObject [(''id'', JString ''c1'')]])]))),
      Returns (Response (Some (JObject [(''data'', JArray [])])))]"

definition disk_with_array :: world where
  "disk_with_array =
     (fresh_world offline)\<lparr>files := [''out.json'' \<mapsto> Dumped (JArray [JInt 1]) [CHR 0x0A]]\<rparr>"

section \<open>The JSON exporter\<close>

lemma build_json_file_absent:
  "files w (n @ ''.json'') = None \<Longrightarrow>
   build_json_file p n w =
     (Inr (), (enter (Build_json_file p n) w)\<lparr>files := (files w)(n @ ''.json'' \<mapsto> Dumped p [])\<rparr>)"
  by (simp add: build_json_file_def enter_def Let_def)

lemma build_json_file_array:
  "files w (n @ ''.json'') = Some f \<Longrightarrow> json_load f = Inr (JArray xs) \<Longrightarrow>
   build_json_file p n w =
     (Inr (), (enter (Build_json_file p n) w)\<lparr>files := (files w)(n @ ''.json'' \<mapsto> Dumped (JArray (xs @ [p])) [])\<rparr>)"
  by (simp add: build_json_file_def enter_def Let_def)

text \<open>
  C4: the claim asks that the JSON exporter, called with a file name that does not yet
  exist, leaves a file holding a JSON array of length 1 whose element is the payload.
  The code does not: with the payload \<^verbatim>\<open>{"id": "abc"}\<close> the file it creates holds that
  object itself. The branch that creates the file dumps the payload bare, while the
  other branch appends every later payload to the file's array as one element.
\<close>

theorem build_json_file_new_file_bare:
  "files (snd (build_json_file (JObject [(''id'', JString ''abc'')]) ''out'' (fresh_world offline))) ''out.json''
     = Some (Dumped (JObject [(''id'', JString ''abc'')]) []) \<and>
   json_load (Dumped (JObject [(''id'', JString ''abc'')]) []) \<noteq> Inr (JArray [JObject [(''id'', JString ''abc'')]])"
  by (simp add: build_json_file_def enter_def fresh_world_def Let_def)

text \<open>
  C5: the claim asks that two payloads written in sequence to the same initially
  nonexistent file leave a JSON array of length 2 holding the two payloads in order. The
  code does not: after the payloads \<open>[1, 2]\<close> and \<open>[3]\<close> the file holds \<open>[1, 2, [3]]\<close>, an
  array of length 3, because the first call dumps its payload bare and only the second
  appends its payload as one element; and after an object as first payload the second
  call raises \<open>AttributeError\<close> and the file keeps the object.
\<close>

theorem build_json_file_twice_nested:
  "fst (build_json_file (JArray [JInt 3]) ''out''
         (snd (build_json_file (JArray [JInt 1, JInt 2]) ''out'' (fresh_world offline)))) = Inr () \<and>
   files (snd (build_json_file (JArray [JInt 3]) ''out''
         (snd (build_json_file (JArray [JInt 1, JInt 2]) ''out'' (fresh_world offline))))) ''out.json''
     = Some (Dumped (JArray [JInt 1, JInt 2, JArray [JInt 3]]) []) \<and>
   json_load (Dumped (JArray [JInt 1, JInt 2, JArray [JInt 3]]) [])
     \<noteq> Inr (JArray [JArray [JInt 1, JInt 2], JArray [JInt 3]]) \<and>
   length [JInt 1, JInt 2, JArray [JInt 3]] \<noteq> 2 \<and>
   fst (build_json_file (JArray [JInt 3]) ''out''
         (snd (build_json_file (JObject [(''id'', JString ''abc'')]) ''out'' (fresh_world offline))))
     = Inl AttributeError \<and>
   files (snd (build_json_file (JArray [JInt 3]) ''out''
         (snd (build_json_file (JObject [(''id'', JString ''abc'')]) ''out'' (fresh_world offline))))) ''out.json''
     = Some (Dumped (JObject [(''id'', JString ''abc'')]) [])"
  by (simp add: build_json_file_def enter_def fresh_world_def Let_def)

text \<open>
  C9: for every call of the JSON exporter where the named file exists and its contents
  parse to a JSON array, the call succeeds and the resulting file parses to an array
  whose length is one greater than before, whose prefix is the prior array's elements
  unchanged and in order, and whose last element is the new payload; no other file
  changes.
\<close>

theorem build_json_file_existing_array:
  assumes "files w (file_export_name @ ''.json'') = Some f"
    and "json_load f = Inr (JArray existing_data)"
  shows "fst (build_json_file new_data file_export_name w) = Inr () \<and>
         files (snd (build_json_file new_data file_export_name w)) =
           (files w)(file_export_name @ ''.json'' \<mapsto> Dumped (JArray (existing_data @ [new_data])) []) \<and>
         json_load (Dumped (JArray (existing_data @ [new_data])) []) = Inr (JArray (existing_data @ [new_data])) \<and>
         length (existing_data @ [new_data]) = length existing_data + 1 \<and>
         take (length existing_data) (existing_data @ [new_data]) = existing_data \<and>
         last (existing_data @ [new_data]) = new_data"
  using assms by (simp add: build_json_file_array enter_def)

theorem build_json_file_existing_array_witness:
  "files disk_with_array (''out'' @ ''.json'') = Some (Dumped (JArray [JInt 1]) [CHR 0x0A]) \<and>
   json_load (Dumped (JArray [JInt 1]) [CHR 0x0A]) = Inr (JArray [JInt 1]) \<and>
   fst (build_json_file (JInt 2) ''out'' disk_with_array) = Inr () \<and>
   files (snd (build_json_file (JInt 2) ''out'' disk_with_array)) ''out.json''
     = Some (Dumped (JArray [JInt 1, JInt 2]) [])"
proof -
  have h1: "files disk_with_array (''out'' @ ''.json'') = Some (Dumped (JArray [JInt 1]) [CHR 0x0A])"
    by (simp add: disk_with_array_def fresh_world_def)
  have h2: "json_load (Dumped (JArray [JInt 1]) [CHR 0x0A]) = Inr (JArray [JInt 1])"
    by (simp add: is_json_space_def)
  show ?thesis
    using h1 h2 build_json_file_existing_array [OF h1 h2, of "JInt 2"] by simp
qed

section \<open>The factory\<close>

lemma same_ignoring_case_lower: "same_ignoring_case a b \<longleftrightarrow> lower a = lower b"
  by (induction a b rule: same_ignoring_case.induct) (auto simp: lower_def)

lemma lower_key: "lower ''reddit-historical'' = ''reddit-historical''"
  by (simp add: lower_def lower_char_def)

text \<open>
  C7: for every string key, the factory returns a constructed client (request delay 2,
  page size 500) when the key matches \<open>reddit-historical\<close> case-insensitively, and
  \<open>None\<close> for every other key; it is the only key mapped.
\<close>

theorem get_data_source_spec:
  "get_data_source data_source =
     (if same_ignoring_case data_source ''reddit-historical''
      then Some \<lparr>time_delay = 2, number_results = 500\<rparr> else None)"
  unfolding same_ignoring_case_lower lower_key get_data_source_def CollectRedditPSIOData_def ..

theorem get_data_source_spec_witness:
  "get_data_source ''Reddit-HISTORICAL'' = Some \<lparr>time_delay = 2, number_results = 500\<rparr> \<and>
   get_data_source ''reddit-live'' = None"
  using get_data_source_spec [of "''Reddit-HISTORICAL''"] get_data_source_spec [of "''reddit-live''"]
  by (simp add: lower_char_def)

section \<open>The day buckets\<close>







lemma date_range_loop_valid:
  "(\<And>n. n \<in> set ns \<Longrightarrow> valid_date (s + n)) \<Longrightarrow>
   date_range_loop mktime s ns acc =
     Inr (acc @ map (\<lambda>j. str_int (mktime (length acc + j) (s + ns ! j))) [0..<length ns])"
proof (induction ns arbitrary: acc)
  case Nil
  show ?case by simp
next
  case (Cons n ns)
  have n: "valid_date (s + n)" and ns: "\<And>m. m \<in> set ns \<Longrightarrow> valid_date (s + m)"
    using Cons.prems by simp_all
  have "date_range_loop mktime s (n # ns) acc =
        date_range_loop mktime s ns (acc @ [str_int (mktime (length acc) (s + n))])"
    using n by (simp add: date_add_days_def)
  also have "\<dots> = Inr ((acc @ [str_int (mktime (length acc) (s + n))]) @
        map (\<lambda>j. str_int (mktime (length (acc @ [str_int (mktime (length acc) (s + n))]) + j) (s + ns ! j)))
          [0..<length ns])"
    using ns by (rule Cons.IH)
  also have "\<dots> = Inr (acc @ map (\<lambda>j. str_int (mktime (length acc + j) (s + (n # ns) ! j))) [0..<length (n # ns)])"
    by (simp add: map_upt_Suc del: upt_Suc)
  finally show ?case .
qed

lemma make_date_range_valid:
  assumes "valid_date s" "valid_date e"
  shows "make_date_range mktime s e =
           Inr (map (\<lambda>j. str_int (mktime j (s + int j))) [0..<length [0..e - s]])"
proof -
  have v: "\<And>n. n \<in> set [0..e - s] \<Longrightarrow> valid_date (s + n)"
    using assms by (auto simp: valid_date_def)
  have nth: "[0..e - s] ! j = int j" if "j < length [0..e - s]" for j
  proof -
    from that have "[0..e - s] ! j = 0 + int j" by (intro nth_upto) simp
    then show ?thesis by simp
  qed
  have "map (\<lambda>j. str_int (mktime (length ([] :: string list) + j) (s + [0..e - s] ! j))) [0..<length [0..e - s]]
      = map (\<lambda>j. str_int (mktime j (s + int j))) [0..<length [0..e - s]]"
    by (rule map_cong) (simp_all add: nth)
  with date_range_loop_valid [of "[0..e - s]" s mktime "[]", OF v] show ?thesis
    by (simp only: make_date_range_def append_Nil)
qed





section \<open>The driver\<close>

lemma then_do_Inr [simp]: "then_do (evaluate (Inr x)) f = f x"
  by (rule ext) (simp add: then_do_def evaluate_def)

lemma then_do_Inl [simp]: "then_do (evaluate (Inl e)) f = evaluate (Inl e)"
  by (rule ext) (simp add: then_do_def evaluate_def)

lemma make_date_range_same:
  "valid_date d \<Longrightarrow> make_date_range mktime d d = Inr [str_int (mktime 0 d)]"
  by (simp add: make_date_range_valid)

text \<open>
  C10: for every query and subreddit, running the driver with \<open>start_date\<close> equal to
  \<open>end_date\<close> produces a day-bucket list of length 1 and leaves the world as it was:
  no fetch operation is entered, no request is sent and no file is created or modified.
\<close>

theorem run_reddit_psio_query_same_day:
  assumes "valid_date start_date"
  shows "make_date_range mktime start_date start_date = Inr [str_int (mktime 0 start_date)] \<and>
         length [str_int (mktime 0 start_date)] = 1 \<and>
         run_reddit_psio_query mktime curr_datetime query subreddit start_date start_date w = (Inr (), w) \<and>
         calls (snd (run_reddit_psio_query mktime curr_datetime query subreddit start_date start_date w)) = calls w \<and>
         requests (snd (run_reddit_psio_query mktime curr_datetime query subreddit start_date start_date w)) = requests w \<and>
         files (snd (run_reddit_psio_query mktime curr_datetime query subreddit start_date start_date w)) = files w"
  using assms by (simp add: run_reddit_psio_query_def make_date_range_same evaluate_def)

theorem run_reddit_psio_query_same_day_witness:
  "valid_date 737425 \<and>
   make_date_range utc 737425 737425 = Inr [''1577836800''] \<and>
   run_reddit_psio_query utc ''2020-04-01'' ''covid'' ''Canada'' 737425 737425 (fresh_world offline)
     = (Inr (), fresh_world offline)"
proof -
  have h: "valid_date 737425" by (simp add: valid_date_def)
  show ?thesis
    using h run_reddit_psio_query_same_day [OF h, of utc "''2020-04-01''" "''covid''" "''Canada''" "fresh_world offline"]
    by (simp add: fixed_offset_def utc_def str_int_def digits.simps digit_char_def)
qed

section \<open>The retry loops of the client\<close>

lemma next_outcomes_Suc:
  "next_outcomes w url (Suc k) =
     net w (length (requests w)) url # next_outcomes (w\<lparr>requests := requests w @ [url']\<rparr>) url k"
  by (simp add: next_outcomes_def map_upt_Suc del: upt_Suc)

lemma next_outcomes_snoc:
  "next_outcomes w url (Suc k) = next_outcomes w url k @ [net w (length (requests w) + k) url]"
  by (simp add: next_outcomes_def)

lemma next_outcomes_cong:
  "net w' = net w \<Longrightarrow> length (requests w') = length (requests w) \<Longrightarrow>
   next_outcomes w' url k = next_outcomes w url k"
  by (simp add: next_outcomes_def)

lemma except_clauses_caught:
  assumes "caught e"
  shows "\<exists>w'. except_clauses url ef e w = Some w' \<and>
     net w' = net w \<and> requests w' = requests w \<and> calls w' = calls w \<and>
     files w' = (if decode_failure (Raises e) then append_text (ef @ ''.txt'') (url @ [CHR 0x0A]) (files w)
                 else files w) \<and>
     log_lines w' = log_lines w @ attempt_log url (Raises e)"
  using assms by (cases e) (simp_all add: logging_info_def build_error_text_file_def)

lemma funpow_if_Suc:
  "(f ^^ length (filter P xs)) ((if P x then f a else a)) = (f ^^ length (filter P (x # xs))) a"
  by (simp add: funpow_swap1)

lemma submissions_loop_failures:
  "list_all request_fails os \<Longrightarrow> next_outcomes w url (length os) = os \<Longrightarrow>
   \<exists>w'. submissions_loop (length os + n) c url w = submissions_loop n c url w' \<and>
        net w' = net w \<and> requests w' = requests w @ replicate (length os) url \<and>
        calls w' = calls w \<and>
        files w' = (append_text ''submissions_error.txt'' (url @ [CHR 0x0A]) ^^ length (filter decode_failure os)) (files w) \<and>
        log_lines w' = log_lines w @ concat (map (attempt_log url) os)"
proof (induction os arbitrary: w)
  case Nil
  show ?case by (intro exI [of _ w]) simp
next
  case (Cons out os)
  from Cons.prems(1) obtain e where out: "out = Raises e" and e: "caught e"
    by (cases out) auto
  let ?w1 = "w\<lparr>requests := requests w @ [url]\<rparr>"
  from Cons.prems(2) have hd: "net w (length (requests w)) url = Raises e"
    and tl: "next_outcomes ?w1 url (length os) = os"
    using next_outcomes_Suc [of w url "length os" url] out by simp_all
  from except_clauses_caught [OF e, of url "''submissions_error''" ?w1]
  obtain w2 where w2: "except_clauses url ''submissions_error'' e ?w1 = Some w2"
    "net w2 = net w" "requests w2 = requests w @ [url]" "calls w2 = calls w"
    "files w2 = (if decode_failure (Raises e) then append_text ''submissions_error.txt'' (url @ [CHR 0x0A]) (files w) else files w)"
    "log_lines w2 = log_lines w @ attempt_log url (Raises e)"
    by auto
  have step: "submissions_loop (length (out # os) + n) c url w = submissions_loop (length os + n) c url w2"
    using hd w2(1) by (simp add: requests_get_def)
  have "next_outcomes w2 url (length os) = os"
    using tl w2(2,3) next_outcomes_cong [of w2 ?w1 url "length os"] by simp
  with Cons.IH [of w2] Cons.prems(1)
  obtain w' where w': "submissions_loop (length os + n) c url w2 = submissions_loop n c url w'"
    "net w' = net w2" "requests w' = requests w2 @ replicate (length os) url"
    "calls w' = calls w2"
    "files w' = (append_text ''submissions_error.txt'' (url @ [CHR 0x0A]) ^^ length (filter decode_failure os)) (files w2)"
    "log_lines w' = log_lines w2 @ concat (map (attempt_log url) os)"
    by auto
  have files: "files w' = (append_text ''submissions_error.txt'' (url @ [CHR 0x0A]) ^^ length (filter decode_failure (out # os))) (files w)"
    unfolding w'(5) w2(5) out by (rule funpow_if_Suc)
  show ?case
    using step w' w2 files out by (intro exI [of _ w']) (simp add: replicate_app_Cons_same)
qed

lemma comments_loop_failures:
  "list_all request_fails os \<Longrightarrow> next_outcomes w url (length os) = os \<Longrightarrow>
   \<exists>w'. comments_loop (length os + n) c url w = comments_loop n c url w' \<and>
        net w' = net w \<and> requests w' = requests w @ replicate (length os) url \<and>
        calls w' = calls w \<and>
        files w' = (append_text ''comment_error.txt'' (url @ [CHR 0x0A]) ^^ length (filter decode_failure os)) (files w) \<and>
        log_lines w' = log_lines w @ concat (map (attempt_log url) os)"
proof (induction os arbitrary: w)
  case Nil
  show ?case by (intro exI [of _ w]) simp
next
  case (Cons out os)
  from Cons.prems(1) obtain e where out: "out = Raises e" and e: "caught e"
    by (cases out) auto
  let ?w1 = "w\<lparr>requests := requests w @ [url]\<rparr>"
  from Cons.prems(2) have hd: "net w (length (requests w)) url = Raises e"
    and tl: "next_outcomes ?w1 url (length os) = os"
    using next_outcomes_Suc [of w url "length os" url] out by simp_all
  from except_clauses_caught [OF e, of url "''comment_error''" ?w1]
  obtain w2 where w2: "except_clauses url ''comment_error'' e ?w1 = Some w2"
    "net w2 = net w" "requests w2 = requests w @ [url]" "calls w2 = calls w"
    "files w2 = (if decode_failure (Raises e) then append_text ''comment_error.txt'' (url @ [CHR 0x0A]) (files w) else files w)"
    "log_lines w2 = log_lines w @ attempt_log url (Raises e)"
    by auto
  have step: "comments_loop (length (out # os) + n) c url w = comments_loop (length os + n) c url w2"
    using hd w2(1) by (simp add: requests_get_def)
  have "next_outcomes w2 url (length os) = os"
    using tl w2(2,3) next_outcomes_cong [of w2 ?w1 url "length os"] by simp
  with Cons.IH [of w2] Cons.prems(1)
  obtain w' where w': "comments_loop (length os + n) c url w2 = comments_loop n c url w'"
    "net w' = net w2" "requests w' = requests w2 @ replicate (length os) url"
    "calls w' = calls w2"
    "files w' = (append_text ''comment_error.txt'' (url @ [CHR 0x0A]) ^^ length (filter decode_failure os)) (files w2)"
    "log_lines w' = log_lines w2 @ concat (map (attempt_log url) os)"
    by auto
  have files: "files w' = (append_text ''comment_error.txt'' (url @ [CHR 0x0A]) ^^ length (filter decode_failure (out # os))) (files w)"
    unfolding w'(5) w2(5) out by (rule funpow_if_Suc)
  show ?case
    using step w' w2 files out by (intro exI [of _ w']) (simp add: replicate_app_Cons_same)
qed

lemma comment_ids_attempt_fails:
  assumes "attempt_fails out" and "net w (length (requests w)) (submission_id_api_call sid) = out"
  shows "\<exists>w2. comment_ids_loop (Suc n) c sid acc w = comment_ids_loop n c sid acc w2 \<and>
     net w2 = net w \<and> requests w2 = requests w @ [submission_id_api_call sid] \<and> calls w2 = calls w \<and>
     files w2 = (if decode_failure out
                 then append_text ''submission_id_error.txt'' (submission_id_api_call sid @ [CHR 0x0A]) (files w)
                 else files w) \<and>
     log_lines w2 = log_lines w @ attempt_log (submission_id_api_call sid) out"
proof (cases out)
  case (Raises e)
  let ?url = "submission_id_api_call sid"
  let ?w1 = "w\<lparr>requests := requests w @ [?url]\<rparr>"
  from assms(1) Raises have e: "caught e" by simp
  from except_clauses_caught [OF e, of ?url "''submission_id_error''" ?w1]
  obtain w2 where w2: "except_clauses ?url ''submission_id_error'' e ?w1 = Some w2"
    "net w2 = net w" "requests w2 = requests w @ [?url]" "calls w2 = calls w"
    "files w2 = (if decode_failure (Raises e) then append_text ''submission_id_error.txt'' (?url @ [CHR 0x0A]) (files w) else files w)"
    "log_lines w2 = log_lines w @ attempt_log ?url (Raises e)"
    by auto
  have "comment_ids_loop (Suc n) c sid acc w = comment_ids_loop n c sid acc w2"
    using assms(2) Raises w2(1) by (simp add: requests_get_def)
  with w2 Raises show ?thesis by (intro exI [of _ w2]) simp
next
  case (Returns r)
  let ?url = "submission_id_api_call sid"
  let ?w1 = "time_sleep (time_delay c) (w\<lparr>requests := requests w @ [?url]\<rparr>)"
  from assms(1) Returns have r: "response_json r = Inl JSONDecodeError" by simp
  from except_clauses_caught [of JSONDecodeError ?url "''submission_id_error''" ?w1]
  obtain w2 where w2: "except_clauses ?url ''submission_id_error'' JSONDecodeError ?w1 = Some w2"
    "net w2 = net w" "requests w2 = requests w @ [?url]" "calls w2 = calls w"
    "files w2 = append_text ''submission_id_error.txt'' (?url @ [CHR 0x0A]) (files w)"
    "log_lines w2 = log_lines w @ attempt_log ?url (Raises JSONDecodeError)"
    by (auto simp: time_sleep_def)
  have "comment_ids_loop (Suc n) c sid acc w = comment_ids_loop n c sid acc w2"
    using assms(2) Returns r w2(1) by (simp add: requests_get_def)
  with w2 Returns r show ?thesis by (intro exI [of _ w2]) simp
qed

lemma comment_ids_loop_failures:
  "list_all attempt_fails os \<Longrightarrow> next_outcomes w (submission_id_api_call sid) (length os) = os \<Longrightarrow>
   \<exists>w'. comment_ids_loop (length os + n) c sid acc w = comment_ids_loop n c sid acc w' \<and>
        net w' = net w \<and>
        requests w' = requests w @ replicate (length os) (submission_id_api_call sid) \<and>
        calls w' = calls w \<and>
        files w' = (append_text ''submission_id_error.txt'' (submission_id_api_call sid @ [CHR 0x0A])
                      ^^ length (filter decode_failure os)) (files w) \<and>
        log_lines w' = log_lines w @ concat (map (attempt_log (submission_id_api_call sid)) os)"
proof (induction os arbitrary: w)
  case Nil
  show ?case by (intro exI [of _ w]) simp
next
  case (Cons out os)
  let ?url = "submission_id_api_call sid"
  let ?w1 = "w\<lparr>requests := requests w @ [?url]\<rparr>"
  from Cons.prems(1) have out: "attempt_fails out" by simp
  from Cons.prems(2) have hd: "net w (length (requests w)) ?url = out"
    and tl: "next_outcomes ?w1 ?url (length os) = os"
    using next_outcomes_Suc [of w ?url "length os" ?url] by simp_all
  from comment_ids_attempt_fails [OF out hd, of "length os + n" c acc]
  obtain w2 where w2: "comment_ids_loop (Suc (length os + n)) c sid acc w = comment_ids_loop (length os + n) c sid acc w2"
    "net w2 = net w" "requests w2 = requests w @ [?url]" "calls w2 = calls w"
    "files w2 = (if decode_failure out then append_text ''submission_id_error.txt'' (?url @ [CHR 0x0A]) (files w) else files w)"
    "log_lines w2 = log_lines w @ attempt_log ?url out"
    by auto
  have "next_outcomes w2 ?url (length os) = os"
    using tl w2(2,3) next_outcomes_cong [of w2 ?w1 ?url "length os"] by simp
  with Cons.IH [of w2] Cons.prems(1)
  obtain w' where w': "comment_ids_loop (length os + n) c sid acc w2 = comment_ids_loop n c sid acc w'"
    "net w' = net w2" "requests w' = requests w2 @ replicate (length os) ?url"
    "calls w' = calls w2"
    "files w' = (append_text ''submission_id_error.txt'' (?url @ [CHR 0x0A]) ^^ length (filter decode_failure os)) (files w2)"
    "log_lines w' = log_lines w2 @ concat (map (attempt_log ?url) os)"
    by auto
  have files: "files w' = (append_text ''submission_id_error.txt'' (?url @ [CHR 0x0A]) ^^ length (filter decode_failure (out # os))) (files w)"
    unfolding w'(5) w2(5) by (rule funpow_if_Suc)
  show ?case
    using w2(1) w' w2(2-4,6) files by (intro exI [of _ w']) (simp add: replicate_app_Cons_same)
qed

lemma next_outcomes_enter [simp]: "next_outcomes (enter ev w) url k = next_outcomes w url k"
  by (simp add: next_outcomes_def enter_def)

lemma next_outcomes_split:
  "next_outcomes w url (Suc k) = os @ [out] \<Longrightarrow> length os = k \<Longrightarrow>
   next_outcomes w url k = os \<and> net w (length (requests w) + k) url = out"
  by (simp add: next_outcomes_snoc)

lemma retries_split:
  "int (length os) \<le> num_retries \<Longrightarrow>
   nat (num_retries + 1) = length os + Suc (nat num_retries - length os)"
  by simp

lemma get_submissions_after_failures:
  assumes "list_all request_fails os" and "int (length os) \<le> num_retries"
    and "next_outcomes w (submissions_api_call c q sr b a) (Suc (length os)) = os @ [Returns r]"
  shows "\<exists>w'. get_submissions c q sr b a num_retries w = (response_json r, w') \<and>
     files w' = (append_text ''submissions_error.txt'' (submissions_api_call c q sr b a @ [CHR 0x0A])
                   ^^ length (filter decode_failure os)) (files w) \<and>
     log_lines w' = log_lines w @ concat (map (attempt_log (submissions_api_call c q sr b a)) os) \<and>
     requests w' = requests w @ replicate (Suc (length os)) (submissions_api_call c q sr b a) \<and>
     calls w' = calls w @ [Get_submissions q sr b a]"
proof -
  let ?url = "submissions_api_call c q sr b a"
  let ?w0 = "enter (Get_submissions q sr b a) w"
  let ?m = "nat num_retries - length os"
  from next_outcomes_split [OF assms(3)]
  have os: "next_outcomes ?w0 ?url (length os) = os"
    and ok: "net w (length (requests w) + length os) ?url = Returns r"
    by simp_all
  from submissions_loop_failures [OF assms(1) os, of "Suc ?m" c]
  obtain w1 where w1: "submissions_loop (length os + Suc ?m) c ?url ?w0 = submissions_loop (Suc ?m) c ?url w1"
    "net w1 = net ?w0" "requests w1 = requests ?w0 @ replicate (length os) ?url"
    "calls w1 = calls ?w0"
    "files w1 = (append_text ''submissions_error.txt'' (?url @ [CHR 0x0A]) ^^ length (filter decode_failure os)) (files ?w0)"
    "log_lines w1 = log_lines ?w0 @ concat (map (attempt_log ?url) os)"
    by blast
  have get: "net w1 (length (requests w1)) ?url = Returns r"
    using ok w1(2,3) by (simp add: enter_def)
  let ?w2 = "time_sleep (time_delay c) (w1\<lparr>requests := requests w1 @ [?url]\<rparr>)"
  have "submissions_loop (Suc ?m) c ?url w1 = (Inr (Some r), ?w2)"
    using get by (simp add: requests_get_def)
  with w1(1) have "get_submissions c q sr b a num_retries w = (response_json r, ?w2)"
    by (simp add: get_submissions_def retries_split [OF assms(2)])
  moreover have "files ?w2 = (append_text ''submissions_error.txt'' (?url @ [CHR 0x0A]) ^^ length (filter decode_failure os)) (files w)"
    "log_lines ?w2 = log_lines w @ concat (map (attempt_log ?url) os)"
    "requests ?w2 = requests w @ replicate (Suc (length os)) ?url"
    "calls ?w2 = calls w @ [Get_submissions q sr b a]"
    using w1(3-6) by (simp_all add: time_sleep_def enter_def replicate_append_same)
  ultimately show ?thesis by blast
qed

lemma get_submissions_exhausted:
  assumes "list_all request_fails os"
    and "next_outcomes w (submissions_api_call c q sr b a) (nat (num_retries + 1)) = os"
  shows "fst (get_submissions c q sr b a num_retries w) = Inl UnboundLocalError"
proof -
  let ?url = "submissions_api_call c q sr b a"
  let ?w0 = "enter (Get_submissions q sr b a) w"
  have len: "length os = nat (num_retries + 1)"
    using assms(2) by (auto simp: next_outcomes_def)
  have os: "next_outcomes ?w0 ?url (length os) = os"
    using assms(2) len by simp
  from submissions_loop_failures [OF assms(1) os, of 0 c]
  obtain w1 where "submissions_loop (length os) c ?url ?w0 = submissions_loop 0 c ?url w1"
    by auto
  then show ?thesis
    by (simp add: get_submissions_def len [symmetric])
qed

lemma get_comments_after_failures:
  assumes "join_comma ids = Inr s"
    and "list_all request_fails os" and "int (length os) \<le> num_retries"
    and "next_outcomes w (comments_api_call s) (Suc (length os)) = os @ [Returns r]"
  shows "\<exists>w'. get_comments c ids num_retries w = (response_json r, w') \<and>
     files w' = (append_text ''comment_error.txt'' (comments_api_call s @ [CHR 0x0A])
                   ^^ length (filter decode_failure os)) (files w) \<and>
     log_lines w' = log_lines w @ concat (map (attempt_log (comments_api_call s)) os) \<and>
     requests w' = requests w @ replicate (Suc (length os)) (comments_api_call s) \<and>
     calls w' = calls w @ [Get_comments ids]"
proof -
  let ?url = "comments_api_call s"
  let ?w0 = "enter (Get_comments ids) w"
  let ?m = "nat num_retries - length os"
  from next_outcomes_split [OF assms(4)]
  have os: "next_outcomes ?w0 ?url (length os) = os"
    and ok: "net w (length (requests w) + length os) ?url = Returns r"
    by simp_all
  from comments_loop_failures [OF assms(2) os, of "Suc ?m" c]
  obtain w1 where w1: "comments_loop (length os + Suc ?m) c ?url ?w0 = comments_loop (Suc ?m) c ?url w1"
    "net w1 = net ?w0" "requests w1 = requests ?w0 @ replicate (length os) ?url"
    "calls w1 = calls ?w0"
    "files w1 = (append_text ''comment_error.txt'' (?url @ [CHR 0x0A]) ^^ length (filter decode_failure os)) (files ?w0)"
    "log_lines w1 = log_lines ?w0 @ concat (map (attempt_log ?url) os)"
    by blast
  have get: "net w1 (length (requests w1)) ?url = Returns r"
    using ok w1(2,3) by (simp add: enter_def)
  let ?w2 = "time_sleep (time_delay c) (w1\<lparr>requests := requests w1 @ [?url]\<rparr>)"
  have "comments_loop (Suc ?m) c ?url w1 = (Inr (Some r), ?w2)"
    using get by (simp add: requests_get_def)
  with w1(1) have "get_comments c ids num_retries w = (response_json r, ?w2)"
    by (simp add: get_comments_def assms(1) retries_split [OF assms(3)])
  moreover have "files ?w2 = (append_text ''comment_error.txt'' (?url @ [CHR 0x0A]) ^^ length (filter decode_failure os)) (files w)"
    "log_lines ?w2 = log_lines w @ concat (map (attempt_log ?url) os)"
    "requests ?w2 = requests w @ replicate (Suc (length os)) ?url"
    "calls ?w2 = calls w @ [Get_comments ids]"
    using w1(3-6) by (simp_all add: time_sleep_def enter_def replicate_append_same)
  ultimately show ?thesis by blast
qed

lemma get_comments_exhausted:
  assumes "join_comma ids = Inr s" and "list_all request_fails os"
    and "next_outcomes w (comments_api_call s) (nat (num_retries + 1)) = os"
  shows "fst (get_comments c ids num_retries w) = Inl UnboundLocalError"
proof -
  let ?url = "comments_api_call s"
  let ?w0 = "enter (Get_comments ids) w"
  have len: "length os = nat (num_retries + 1)"
    using assms(3) by (auto simp: next_outcomes_def)
  have os: "next_outcomes ?w0 ?url (length os) = os"
    using assms(3) len by simp
  from comments_loop_failures [OF assms(2) os, of 0 c]
  obtain w1 where "comments_loop (length os) c ?url ?w0 = comments_loop 0 c ?url w1"
    by auto
  then show ?thesis
    by (simp add: get_comments_def assms(1) len [symmetric])
qed

lemma get_comment_ids_after_failures:
  assumes "list_all attempt_fails os" and "int (length os) \<le> num_retries"
    and "next_outcomes w (submission_id_api_call sid) (Suc (length os)) = os @ [Returns (Response (Some j))]"
    and "subscript j ''data'' = Inr d" and "py_iter d = Inr ids"
  shows "\<exists>w'. get_comments_id_from_submissions_id c sid num_retries w =
           (Inr (if ids = [] then [id_pair sid (JString ''N/A'')] else map (id_pair sid) ids), w') \<and>
     files w' = (append_text ''submission_id_error.txt'' (submission_id_api_call sid @ [CHR 0x0A])
                   ^^ length (filter decode_failure os)) (files w) \<and>
     log_lines w' = log_lines w @ concat (map (attempt_log (submission_id_api_call sid)) os) \<and>
     requests w' = requests w @ replicate (Suc (length os)) (submission_id_api_call sid) \<and>
     calls w' = calls w @ [Get_comment_ids sid]"
proof -
  let ?url = "submission_id_api_call sid"
  let ?w0 = "enter (Get_comment_ids sid) w"
  let ?m = "nat num_retries - length os"
  from next_outcomes_split [OF assms(3)]
  have os: "next_outcomes ?w0 ?url (length os) = os"
    and ok: "net w (length (requests w) + length os) ?url = Returns (Response (Some j))"
    by simp_all
  from comment_ids_loop_failures [OF assms(1) os, of "Suc ?m" c "[]"]
  obtain w1 where w1: "comment_ids_loop (length os + Suc ?m) c sid [] ?w0 = comment_ids_loop (Suc ?m) c sid [] w1"
    "net w1 = net ?w0" "requests w1 = requests ?w0 @ replicate (length os) ?url"
    "calls w1 = calls ?w0"
    "files w1 = (append_text ''submission_id_error.txt'' (?url @ [CHR 0x0A]) ^^ length (filter decode_failure os)) (files ?w0)"
    "log_lines w1 = log_lines ?w0 @ concat (map (attempt_log ?url) os)"
    by blast
  have get: "net w1 (length (requests w1)) ?url = Returns (Response (Some j))"
    using ok w1(2,3) by (simp add: enter_def)
  let ?w2 = "time_sleep (time_delay c) (w1\<lparr>requests := requests w1 @ [?url]\<rparr>)"
  have "comment_ids_loop (Suc ?m) c sid [] w1 = (Inr (map (id_pair sid) ids), ?w2)"
    using get assms(4,5) by (simp add: requests_get_def)
  with w1(1) have "get_comments_id_from_submissions_id c sid num_retries w =
      (Inr (if ids = [] then [id_pair sid (JString ''N/A'')] else map (id_pair sid) ids), ?w2)"
    by (simp add: get_comments_id_from_submissions_id_def retries_split [OF assms(2)])
  moreover have "files ?w2 = (append_text ''submission_id_error.txt'' (?url @ [CHR 0x0A]) ^^ length (filter decode_failure os)) (files w)"
    "log_lines ?w2 = log_lines w @ concat (map (attempt_log ?url) os)"
    "requests ?w2 = requests w @ replicate (Suc (length os)) ?url"
    "calls ?w2 = calls w @ [Get_comment_ids sid]"
    using w1(3-6) by (simp_all add: time_sleep_def enter_def replicate_append_same)
  ultimately show ?thesis by blast
qed

lemma get_comment_ids_exhausted:
  assumes "list_all attempt_fails os"
    and "next_outcomes w (submission_id_api_call sid) (nat (num_retries + 1)) = os"
  shows "fst (get_comments_id_from_submissions_id c sid num_retries w) = Inr [id_pair sid (JString ''N/A'')]"
proof -
  let ?url = "submission_id_api_call sid"
  let ?w0 = "enter (Get_comment_ids sid) w"
  have len: "length os = nat (num_retries + 1)"
    using assms(2) by (auto simp: next_outcomes_def)
  have os: "next_outcomes ?w0 ?url (length os) = os"
    using assms(2) len by simp
  from comment_ids_loop_failures [OF assms(1) os, of 0 c "[]"]
  obtain w1 where "comment_ids_loop (length os) c sid [] ?w0 = comment_ids_loop 0 c sid [] w1"
    by auto
  then show ?thesis
    by (simp add: get_comments_id_from_submissions_id_def len [symmetric])
qed

lemma text_lines_line:
  "CHR 0x0A \<notin> set u \<Longrightarrow> text_lines acc (u @ CHR 0x0A # rest) = (acc @ u) # text_lines [] rest"
  by (induction u arbitrary: acc) auto

lemma append_text_twice_absent:
  "fs name = None \<Longrightarrow> append_text name t (append_text name t fs) = fs(name \<mapsto> Raw (t @ t))"
  by (simp add: append_text_def)


text \<open>
  C1, as the claim states it, fails for an HTTP-level error: after two attempts that
  raise \<open>HTTPError\<close> and a third that succeeds, with \<open>retries = 2\<close>, fetch-submissions
  returns the payload and the error file has not been written at all.
\<close>

theorem fetch_retries_counterexample:
  "fst (get_submissions CollectRedditPSIOData ''covid'' ''Canada'' ''1577836800'' ''1577923200'' 2
     (fresh_world (scripted [Raises (HTTPError ''503''), Raises (HTTPError ''503''),
        Returns (Response (Some (JObject [(''data'', JArray [])])))])))
     = Inr (JObject [(''data'', JArray [])]) \<and>
   files (snd (get_submissions CollectRedditPSIOData ''covid'' ''Canada'' ''1577836800'' ''1577923200'' 2
     (fresh_world (scripted [Raises (HTTPError ''503''), Raises (HTTPError ''503''),
        Returns (Response (Some (JObject [(''data'', JArray [])])))])))) ''submissions_error.txt''
     = None \<and>
   file_lines (files (snd (get_submissions CollectRedditPSIOData ''covid'' ''Canada'' ''1577836800'' ''1577923200'' 2
     (fresh_world (scripted [Raises (HTTPError ''503''), Raises (HTTPError ''503''),
        Returns (Response (Some (JObject [(''data'', JArray [])])))])))) ''submissions_error.txt'')
     = Some []"
  by (simp add: get_submissions_def numeral_3_eq_3 requests_get_def scripted_def fresh_world_def
        enter_def logging_info_def time_sleep_def)


text \<open>
  C1, amended: for every fetch operation of the client, each attempt that fails inside
  the \<^verbatim>\<open>try\<close> with a JSON-decode failure (raised by the request; for fetch-comment-ids
  also by a body that is not JSON) logs three messages, appends the request URL as one
  line to that stage's error file, and retries; each attempt that fails with an
  HTTP-level error logs two messages and retries, and writes nothing to the error file.
  So when the attempts \<open>os\<close> fail, no more of them than \<open>num_retries\<close>, and the next one
  returns a response with a JSON body, the operation returns what that body gives, the
  stage's error file has gained one line per JSON-decode failure and the log the
  messages of the failed attempts. In particular, for a request sequence that raises a
  JSON-decode failure twice and then succeeds, called with \<open>retries = 2\<close>,
  fetch-submissions returns the parsed payload and the error file, absent before, holds
  exactly two lines, each the URL (a URL without a line break).
\<close>

theorem fetch_retries:
  "(list_all request_fails os \<and> int (length os) \<le> num_retries \<and>
    next_outcomes w (submissions_api_call c q sr b a) (Suc (length os)) = os @ [Returns (Response (Some payload))]
    \<longrightarrow>
      fst (get_submissions c q sr b a num_retries w) = Inr payload \<and>
      files (snd (get_submissions c q sr b a num_retries w)) =
        (append_text ''submissions_error.txt'' (submissions_api_call c q sr b a @ [CHR 0x0A])
           ^^ length (filter decode_failure os)) (files w) \<and>
      log_lines (snd (get_submissions c q sr b a num_retries w)) =
        log_lines w @ concat (map (attempt_log (submissions_api_call c q sr b a)) os) \<and>
      requests (snd (get_submissions c q sr b a num_retries w)) =
        requests w @ replicate (Suc (length os)) (submissions_api_call c q sr b a)) \<and>
   (list_all attempt_fails os \<and> int (length os) \<le> num_retries \<and>
    next_outcomes w (submission_id_api_call sid) (Suc (length os)) = os @ [Returns (Response (Some payload))] \<and>
    subscript payload ''data'' = Inr (JArray comment_ids)
    \<longrightarrow>
      fst (get_comments_id_from_submissions_id c sid num_retries w) =
        Inr (if comment_ids = [] then [id_pair sid (JString ''N/A'')] else map (id_pair sid) comment_ids) \<and>
      files (snd (get_comments_id_from_submissions_id c sid num_retries w)) =
        (append_text ''submission_id_error.txt'' (submission_id_api_call sid @ [CHR 0x0A])
           ^^ length (filter decode_failure os)) (files w) \<and>
      log_lines (snd (get_comments_id_from_submissions_id c sid num_retries w)) =
        log_lines w @ concat (map (attempt_log (submission_id_api_call sid)) os) \<and>
      requests (snd (get_comments_id_from_submissions_id c sid num_retries w)) =
        requests w @ replicate (Suc (length os)) (submission_id_api_call sid)) \<and>
   (join_comma ids = Inr s \<and> list_all request_fails os \<and> int (length os) \<le> num_retries \<and>
    next_outcomes w (comments_api_call s) (Suc (length os)) = os @ [Returns (Response (Some payload))]
    \<longrightarrow>
      fst (get_comments c ids num_retries w) = Inr payload \<and>
      files (snd (get_comments c ids num_retries w)) =
        (append_text ''comment_error.txt'' (comments_api_call s @ [CHR 0x0A])
           ^^ length (filter decode_failure os)) (files w) \<and>
      log_lines (snd (get_comments c ids num_retries w)) =
        log_lines w @ concat (map (attempt_log (comments_api_call s)) os) \<and>
      requests (snd (get_comments c ids num_retries w)) =
        requests w @ replicate (Suc (length os)) (comments_api_call s)) \<and>
   (next_outcomes w (submissions_api_call c q sr b a) 3 =
      [Raises JSONDecodeError, Raises JSONDecodeError, Returns (Response (Some payload))] \<and>
    files w ''submissions_error.txt'' = None \<and> CHR 0x0A \<notin> set (submissions_api_call c q sr b a)
    \<longrightarrow>
      fst (get_submissions c q sr b a 2 w) = Inr payload \<and>
      file_lines (files (snd (get_submissions c q sr b a 2 w)) ''submissions_error.txt'') =
        Some [submissions_api_call c q sr b a, submissions_api_call c q sr b a])"
proof (intro conjI impI; elim conjE)
  assume "list_all request_fails os" "int (length os) \<le> num_retries"
    "next_outcomes w (submissions_api_call c q sr b a) (Suc (length os)) = os @ [Returns (Response (Some payload))]"
  from get_submissions_after_failures [OF this]
  show "fst (get_submissions c q sr b a num_retries w) = Inr payload"
    "files (snd (get_submissions c q sr b a num_retries w)) =
        (append_text ''submissions_error.txt'' (submissions_api_call c q sr b a @ [CHR 0x0A])
           ^^ length (filter decode_failure os)) (files w)"
    "log_lines (snd (get_submissions c q sr b a num_retries w)) =
        log_lines w @ concat (map (attempt_log (submissions_api_call c q sr b a)) os)"
    "requests (snd (get_submissions c q sr b a num_retries w)) =
        requests w @ replicate (Suc (length os)) (submissions_api_call c q sr b a)"
    by auto
next
  assume "list_all attempt_fails os" "int (length os) \<le> num_retries"
    "next_outcomes w (submission_id_api_call sid) (Suc (length os)) = os @ [Returns (Response (Some payload))]"
    "subscript payload ''data'' = Inr (JArray comment_ids)"
  from get_comment_ids_after_failures [OF this, of comment_ids c]
  show "fst (get_comments_id_from_submissions_id c sid num_retries w) =
        Inr (if comment_ids = [] then [id_pair sid (JString ''N/A'')] else map (id_pair sid) comment_ids)"
    "files (snd (get_comments_id_from_submissions_id c sid num_retries w)) =
        (append_text ''submission_id_error.txt'' (submission_id_api_call sid @ [CHR 0x0A])
           ^^ length (filter decode_failure os)) (files w)"
    "log_lines (snd (get_comments_id_from_submissions_id c sid num_retries w)) =
        log_lines w @ concat (map (attempt_log (submission_id_api_call sid)) os)"
    "requests (snd (get_comments_id_from_submissions_id c sid num_retries w)) =
        requests w @ replicate (Suc (length os)) (submission_id_api_call sid)"
    by auto
next
  assume "join_comma ids = Inr s" "list_all request_fails os" "int (length os) \<le> num_retries"
    "next_outcomes w (comments_api_call s) (Suc (length os)) = os @ [Returns (Response (Some payload))]"
  from get_comments_after_failures [OF this, of c]
  show "fst (get_comments c ids num_retries w) = Inr payload"
    "files (snd (get_comments c ids num_retries w)) =
        (append_text ''comment_error.txt'' (comments_api_call s @ [CHR 0x0A])
           ^^ length (filter decode_failure os)) (files w)"
    "log_lines (snd (get_comments c ids num_retries w)) =
        log_lines w @ concat (map (attempt_log (comments_api_call s)) os)"
    "requests (snd (get_comments c ids num_retries w)) =
        requests w @ replicate (Suc (length os)) (comments_api_call s)"
    by auto
next
  let ?url = "submissions_api_call c q sr b a"
  let ?os = "[Raises JSONDecodeError, Raises JSONDecodeError]"
  assume script: "next_outcomes w ?url 3 = [Raises JSONDecodeError, Raises JSONDecodeError, Returns (Response (Some payload))]"
    and absent: "files w ''submissions_error.txt'' = None" and nl: "CHR 0x0A \<notin> set ?url"
  have 1: "list_all request_fails ?os" by simp
  have 2: "int (length ?os) \<le> 2" by simp
  have 3: "next_outcomes w ?url (Suc (length ?os)) = ?os @ [Returns (Response (Some payload))]"
    using script by (simp add: numeral_3_eq_3)
  from get_submissions_after_failures [OF 1 2 3]
  have res: "fst (get_submissions c q sr b a 2 w) = Inr payload"
    and fs: "files (snd (get_submissions c q sr b a 2 w)) =
        append_text ''submissions_error.txt'' (?url @ [CHR 0x0A])
          (append_text ''submissions_error.txt'' (?url @ [CHR 0x0A]) (files w))"
    by auto
  show "fst (get_submissions c q sr b a 2 w) = Inr payload" by (rule res)
  show "file_lines (files (snd (get_submissions c q sr b a 2 w)) ''submissions_error.txt'') = Some [?url, ?url]"
    unfolding fs append_text_twice_absent [of "files w" "''submissions_error.txt''", OF absent]
    using nl by (simp add: text_lines_line)
qed

theorem fetch_retries_witness:
  "fst (get_submissions CollectRedditPSIOData ''covid'' ''Canada'' ''1577836800'' ''1577923200'' 2
     (fresh_world (scripted [Raises JSONDecodeError, Raises JSONDecodeError,
        Returns (Response (Some (JObject [(''data'', JArray [])])))])))
     = Inr (JObject [(''data'', JArray [])]) \<and>
   file_lines (files (snd (get_submissions CollectRedditPSIOData ''covid'' ''Canada'' ''1577836800'' ''1577923200'' 2
     (fresh_world (scripted [Raises JSONDecodeError, Raises JSONDecodeError,
        Returns (Response (Some (JObject [(''data'', JArray [])])))])))) ''submissions_error.txt'')
     = Some [''https://api.pushshift.io/reddit/search/submission/?q=covid&subreddit=Canada&after=1577836800&before=1577923200&limit=500'',
        ''https://api.pushshift.io/reddit/search/submission/?q=covid&subreddit=Canada&after=1577836800&before=1577923200&limit=500''] \<and>
   fst (get_submissions CollectRedditPSIOData ''covid'' ''Canada'' ''1577836800'' ''1577923200'' 1
     (fresh_world (scripted [Raises (HTTPError ''503''),
        Returns (Response (Some (JObject [(''data'', JArray [])])))])))
     = Inr (JObject [(''data'', JArray [])]) \<and>
   files (snd (get_submissions CollectRedditPSIOData ''covid'' ''Canada'' ''1577836800'' ''1577923200'' 1
     (fresh_world (scripted [Raises (HTTPError ''503''),
        Returns (Response (Some (JObject [(''data'', JArray [])])))])))) ''submissions_error.txt''
     = None \<and>
   log_lines (snd (get_submissions CollectRedditPSIOData ''covid'' ''Canada'' ''1577836800'' ''1577923200'' 1
     (fresh_world (scripted [Raises (HTTPError ''503''),
        Returns (Response (Some (JObject [(''data'', JArray [])])))]))))
     = [''HTTP error: 503'', ''Retrying request.''] \<and>
   fst (get_comments_id_from_submissions_id CollectRedditPSIOData (JString ''abc'') 1
     (fresh_world (scripted [Returns (Response None),
        Returns (Response (Some (JObject [(''data'', JArray [JString ''c1''])])))])))
     = Inr [JObject [(''submission_id'', JString ''abc''), (''comment_id'', JString ''c1'')]] \<and>
   file_lines (files (snd (get_comments_id_from_submissions_id CollectRedditPSIOData (JString ''abc'') 1
     (fresh_world (scripted [Returns (Response None),
        Returns (Response (Some (JObject [(''data'', JArray [JString ''c1''])])))])))) ''submission_id_error.txt'')
     = Some [''https://api.pushshift.io/reddit/submission/comment_ids/abc''] \<and>
   fst (get_comments CollectRedditPSIOData [JString ''c1'', JString ''c2''] 1
     (fresh_world (scripted [Raises JSONDecodeError,
        Returns (Response (Some (JObject [(''data'', JArray [])])))])))
     = Inr (JObject [(''data'', JArray [])]) \<and>
   file_lines (files (snd (get_comments CollectRedditPSIOData [JString ''c1'', JString ''c2''] 1
     (fresh_world (scripted [Raises JSONDecodeError,
        Returns (Response (Some (JObject [(''data'', JArray [])])))])))) ''comment_error.txt'')
     = Some [''https://api.pushshift.io/reddit/search/comment?ids=c1,c2'']"
proof -
  let ?p = "JObject [(''data'', JArray [])]"
  let ?url = "submissions_api_call CollectRedditPSIOData ''covid'' ''Canada'' ''1577836800'' ''1577923200''"
  have url: "?url = ''https://api.pushshift.io/reddit/search/submission/?q=covid&subreddit=Canada&after=1577836800&before=1577923200&limit=500''"
    by (simp add: submissions_api_call_def CollectRedditPSIOData_def str_int_def digits.simps digit_char_def)
  let ?w = "fresh_world (scripted [Raises JSONDecodeError, Raises JSONDecodeError, Returns (Response (Some ?p))])"
  have h1: "next_outcomes ?w ?url 3 = [Raises JSONDecodeError, Raises JSONDecodeError, Returns (Response (Some ?p))]"
    by (simp add: next_outcomes_def fresh_world_def scripted_def upt_rec)
  have h2: "files ?w ''submissions_error.txt'' = None"
    by (simp add: fresh_world_def)
  have h3: "CHR 0x0A \<notin> set ?url"
    unfolding url by simp
  from fetch_retries [where w = ?w and c = CollectRedditPSIOData and q = "''covid''" and sr = "''Canada''"
      and b = "''1577836800''" and a = "''1577923200''" and payload = ?p] h1 h2 h3
  have A: "fst (get_submissions CollectRedditPSIOData ''covid'' ''Canada'' ''1577836800'' ''1577923200'' 2 ?w) = Inr ?p \<and>
    file_lines (files (snd (get_submissions CollectRedditPSIOData ''covid'' ''Canada'' ''1577836800'' ''1577923200'' 2 ?w))
      ''submissions_error.txt'') = Some [?url, ?url]"
    by blast
  let ?os1 = "[Raises (HTTPError ''503'')]"
  let ?w1 = "fresh_world (scripted [Raises (HTTPError ''503''), Returns (Response (Some ?p))])"
  have b1: "list_all request_fails ?os1 \<and> int (length ?os1) \<le> 1 \<and>
      next_outcomes ?w1 ?url (Suc (length ?os1)) = ?os1 @ [Returns (Response (Some ?p))]"
    by (simp add: next_outcomes_def fresh_world_def scripted_def upt_rec)
  from fetch_retries [where os = ?os1 and num_retries = 1 and w = ?w1 and c = CollectRedditPSIOData
      and q = "''covid''" and sr = "''Canada''" and b = "''1577836800''" and a = "''1577923200''"
      and payload = ?p] b1
  have "fst (get_submissions CollectRedditPSIOData ''covid'' ''Canada'' ''1577836800'' ''1577923200'' 1 ?w1) = Inr ?p \<and>
      files (snd (get_submissions CollectRedditPSIOData ''covid'' ''Canada'' ''1577836800'' ''1577923200'' 1 ?w1)) =
        (append_text ''submissions_error.txt'' (?url @ [CHR 0x0A]) ^^ length (filter decode_failure ?os1)) (files ?w1) \<and>
      log_lines (snd (get_submissions CollectRedditPSIOData ''covid'' ''Canada'' ''1577836800'' ''1577923200'' 1 ?w1)) =
        log_lines ?w1 @ concat (map (attempt_log ?url) ?os1)"
    by blast
  then have B: "fst (get_submissions CollectRedditPSIOData ''covid'' ''Canada'' ''1577836800'' ''1577923200'' 1 ?w1) = Inr ?p \<and>
      files (snd (get_submissions CollectRedditPSIOData ''covid'' ''Canada'' ''1577836800'' ''1577923200'' 1 ?w1))
        ''submissions_error.txt'' = None \<and>
      log_lines (snd (get_submissions CollectRedditPSIOData ''covid'' ''Canada'' ''1577836800'' ''1577923200'' 1 ?w1)) =
        [''HTTP error: 503'', ''Retrying request.'']"
    by (simp add: fresh_world_def)
  let ?os2 = "[Returns (Response None)]"
  let ?p2 = "JObject [(''data'', JArray [JString ''c1''])]"
  let ?w2 = "fresh_world (scripted [Returns (Response None), Returns (Response (Some ?p2))])"
  let ?url2 = "submission_id_api_call (JString ''abc'')"
  have c1: "list_all attempt_fails ?os2 \<and> int (length ?os2) \<le> 1 \<and>
      next_outcomes ?w2 ?url2 (Suc (length ?os2)) = ?os2 @ [Returns (Response (Some ?p2))] \<and>
      subscript ?p2 ''data'' = Inr (JArray [JString ''c1''])"
    by (simp add: next_outcomes_def fresh_world_def scripted_def upt_rec)
  from fetch_retries [where os = ?os2 and num_retries = 1 and w = ?w2 and c = CollectRedditPSIOData
      and sid = "JString ''abc''" and payload = ?p2 and comment_ids = "[JString ''c1'']"] c1
  have "fst (get_comments_id_from_submissions_id CollectRedditPSIOData (JString ''abc'') 1 ?w2) =
        Inr (if [JString ''c1''] = [] then [id_pair (JString ''abc'') (JString ''N/A'')]
             else map (id_pair (JString ''abc'')) [JString ''c1'']) \<and>
      files (snd (get_comments_id_from_submissions_id CollectRedditPSIOData (JString ''abc'') 1 ?w2)) =
        (append_text ''submission_id_error.txt'' (?url2 @ [CHR 0x0A]) ^^ length (filter decode_failure ?os2)) (files ?w2)"
    by blast
  then have C: "fst (get_comments_id_from_submissions_id CollectRedditPSIOData (JString ''abc'') 1 ?w2) =
        Inr [JObject [(''submission_id'', JString ''abc''), (''comment_id'', JString ''c1'')]] \<and>
      file_lines (files (snd (get_comments_id_from_submissions_id CollectRedditPSIOData (JString ''abc'') 1 ?w2))
        ''submission_id_error.txt'') = Some [''https://api.pushshift.io/reddit/submission/comment_ids/abc'']"
    by (simp add: fresh_world_def append_text_def id_pair_def submission_id_api_call_def py_str_def)
  let ?os3 = "[Raises JSONDecodeError]"
  let ?w3 = "fresh_world (scripted [Raises JSONDecodeError, Returns (Response (Some ?p))])"
  let ?url3 = "comments_api_call ''c1,c2''"
  have d1: "join_comma [JString ''c1'', JString ''c2''] = Inr ''c1,c2'' \<and>
      list_all request_fails ?os3 \<and> int (length ?os3) \<le> 1 \<and>
      next_outcomes ?w3 ?url3 (Suc (length ?os3)) = ?os3 @ [Returns (Response (Some ?p))]"
    by (simp add: join_comma_def next_outcomes_def fresh_world_def scripted_def upt_rec)
  from fetch_retries [where os = ?os3 and num_retries = 1 and w = ?w3 and c = CollectRedditPSIOData
      and ids = "[JString ''c1'', JString ''c2'']" and s = "''c1,c2''" and payload = ?p] d1
  have "fst (get_comments CollectRedditPSIOData [JString ''c1'', JString ''c2''] 1 ?w3) = Inr ?p \<and>
      files (snd (get_comments CollectRedditPSIOData [JString ''c1'', JString ''c2''] 1 ?w3)) =
        (append_text ''comment_error.txt'' (?url3 @ [CHR 0x0A]) ^^ length (filter decode_failure ?os3)) (files ?w3)"
    by blast
  then have D: "fst (get_comments CollectRedditPSIOData [JString ''c1'', JString ''c2''] 1 ?w3) = Inr ?p \<and>
      file_lines (files (snd (get_comments CollectRedditPSIOData [JString ''c1'', JString ''c2''] 1 ?w3))
        ''comment_error.txt'') = Some [''https://api.pushshift.io/reddit/search/comment?ids=c1,c2'']"
    by (simp add: fresh_world_def append_text_def comments_api_call_def)
  from A [unfolded url] B C D show ?thesis
    by (intro conjI) (erule conjE | assumption)+
qed

text \<open>
  C2, as the claim states it, fails for fetch-comment-ids: when both attempts fail with a
  caught error it returns the sentinel pair and raises nothing.
\<close>

theorem retries_exhausted_counterexample:
  "fst (get_comments_id_from_submissions_id CollectRedditPSIOData (JString ''abc'') 1
     (fresh_world (scripted [Raises JSONDecodeError, Raises (HTTPError ''503'')])))
     = Inr [JObject [(''submission_id'', JString ''abc''), (''comment_id'', JString ''N/A'')]]"
  by (simp add: get_comments_id_from_submissions_id_def numeral_2_eq_2 requests_get_def scripted_def
        fresh_world_def enter_def logging_info_def build_error_text_file_def id_pair_def)


text \<open>
  C2, amended: for fetch-submissions and fetch-comments, if every attempt (the initial
  one and all retries) fails with a caught error, the retry loop exits by attempt
  exhaustion with the response variable never assigned, and evaluating the result
  raises a reference error (\<open>UnboundLocalError\<close>); fetch-comment-ids returns in that
  case the one sentinel pair with comment id \<open>N/A\<close>.
\<close>

theorem retries_exhausted:
  "(list_all request_fails os \<and>
    next_outcomes w (submissions_api_call c q sr b a) (nat (num_retries + 1)) = os
    \<longrightarrow> fst (get_submissions c q sr b a num_retries w) = Inl UnboundLocalError) \<and>
   (join_comma ids = Inr s \<and> list_all request_fails os \<and>
    next_outcomes w (comments_api_call s) (nat (num_retries + 1)) = os
    \<longrightarrow> fst (get_comments c ids num_retries w) = Inl UnboundLocalError) \<and>
   (list_all attempt_fails os \<and>
    next_outcomes w (submission_id_api_call sid) (nat (num_retries + 1)) = os
    \<longrightarrow> fst (get_comments_id_from_submissions_id c sid num_retries w) =
          Inr [JObject [(''submission_id'', sid), (''comment_id'', JString ''N/A'')]])"
  using get_submissions_exhausted [of os w c q sr b a num_retries]
    get_comments_exhausted [of ids s os w num_retries c]
    get_comment_ids_exhausted [of os w sid num_retries c]
  by (simp add: id_pair_def)


theorem retries_exhausted_witness:
  "fst (get_submissions CollectRedditPSIOData ''covid'' ''Canada'' ''1577836800'' ''1577923200'' 1
     (fresh_world (scripted [Raises JSONDecodeError, Raises (HTTPError ''503'')])))
     = Inl UnboundLocalError \<and>
   fst (get_comments CollectRedditPSIOData [JString ''c1'', JString ''c2''] 1
     (fresh_world (scripted [Raises (HTTPError ''503''), Raises JSONDecodeError])))
     = Inl UnboundLocalError \<and>
   fst (get_comments_id_from_submissions_id CollectRedditPSIOData (JString ''abc'') 1
     (fresh_world (scripted [Returns (Response None), Raises (HTTPError ''503'')])))
     = Inr [JObject [(''submission_id'', JString ''abc''), (''comment_id'', JString ''N/A'')]]"
proof -
  let ?w1 = "fresh_world (scripted [Raises JSONDecodeError, Raises (HTTPError ''503'')])"
  let ?w2 = "fresh_world (scripted [Raises (HTTPError ''503''), Raises JSONDecodeError])"
  let ?w3 = "fresh_world (scripted [Returns (Response None), Raises (HTTPError ''503'')])"
  have a: "list_all request_fails [Raises JSONDecodeError, Raises (HTTPError ''503'')] \<and>
      next_outcomes ?w1 (submissions_api_call CollectRedditPSIOData ''covid'' ''Canada'' ''1577836800'' ''1577923200'')
        (nat (1 + 1)) = [Raises JSONDecodeError, Raises (HTTPError ''503'')]"
    by (simp add: next_outcomes_def fresh_world_def scripted_def upt_rec)
  have b: "join_comma [JString ''c1'', JString ''c2''] = Inr ''c1,c2'' \<and>
      list_all request_fails [Raises (HTTPError ''503''), Raises JSONDecodeError] \<and>
      next_outcomes ?w2 (comments_api_call ''c1,c2'') (nat (1 + 1))
        = [Raises (HTTPError ''503''), Raises JSONDecodeError]"
    by (simp add: join_comma_def next_outcomes_def fresh_world_def scripted_def upt_rec)
  have c: "list_all attempt_fails [Returns (Response None), Raises (HTTPError ''503'')] \<and>
      next_outcomes ?w3 (submission_id_api_call (JString ''abc'')) (nat (1 + 1))
        = [Returns (Response None), Raises (HTTPError ''503'')]"
    by (simp add: next_outcomes_def fresh_world_def scripted_def upt_rec)
  from a retries_exhausted [of "[Raises JSONDecodeError, Raises (HTTPError ''503'')]" ?w1
      CollectRedditPSIOData "''covid''" "''Canada''" "''1577836800''" "''1577923200''" 1]
  have 1: "fst (get_submissions CollectRedditPSIOData ''covid'' ''Canada'' ''1577836800'' ''1577923200'' 1 ?w1)
     = Inl UnboundLocalError"
    by blast
  from b retries_exhausted [of "[Raises (HTTPError ''503''), Raises JSONDecodeError]" ?w2
      CollectRedditPSIOData "''covid''" "''Canada''" "''1577836800''" "''1577923200''" 1
      "[JString ''c1'', JString ''c2'']" "''c1,c2''"]
  have 2: "fst (get_comments CollectRedditPSIOData [JString ''c1'', JString ''c2''] 1 ?w2) = Inl UnboundLocalError"
    by blast
  from c retries_exhausted [of "[Returns (Response None), Raises (HTTPError ''503'')]" ?w3
      CollectRedditPSIOData "''covid''" "''Canada''" "''1577836800''" "''1577923200''" 1
      "[]" "''''" "JString ''abc''"]
  have 3: "fst (get_comments_id_from_submissions_id CollectRedditPSIOData (JString ''abc'') 1 ?w3)
     = Inr [JObject [(''submission_id'', JString ''abc''), (''comment_id'', JString ''N/A'')]]"
    by blast
  from 1 2 3 show ?thesis by blast
qed


text \<open>
  C3: for every submission id, when an attempt within the retry budget gets a response
  whose \<open>data\<close> is the list of comment ids, fetch-comment-ids returns one pair of
  submission id and comment id per comment id, in the endpoint's order; and when that
  list is empty, it returns exactly the one sentinel pair with comment id \<open>N/A\<close>, never
  an empty list.
\<close>

theorem comment_id_pairs:
  assumes "list_all attempt_fails os" and "int (length os) \<le> num_retries"
    and "next_outcomes w (submission_id_api_call submission_id) (Suc (length os)) =
           os @ [Returns (Response (Some payload))]"
    and "subscript payload ''data'' = Inr (JArray comment_ids)"
  shows "fst (get_comments_id_from_submissions_id c submission_id num_retries w) =
           Inr (if comment_ids = []
                then [JObject [(''submission_id'', submission_id), (''comment_id'', JString ''N/A'')]]
                else map (\<lambda>comment_id.
                       JObject [(''submission_id'', submission_id), (''comment_id'', comment_id)])
                     comment_ids) \<and>
         fst (get_comments_id_from_submissions_id c submission_id num_retries w) \<noteq> Inr []"
proof -
  have "py_iter (JArray comment_ids) = Inr comment_ids" by simp
  from get_comment_ids_after_failures [OF assms this, of c]
  have "fst (get_comments_id_from_submissions_id c submission_id num_retries w) =
      Inr (if comment_ids = [] then [id_pair submission_id (JString ''N/A'')]
           else map (id_pair submission_id) comment_ids)"
    by auto
  then show ?thesis
    by (auto simp: id_pair_def)
qed


theorem comment_id_pairs_witness:
  "fst (get_comments_id_from_submissions_id CollectRedditPSIOData (JString ''abc'') 1
     (fresh_world (scripted [Returns (Response (Some (JObject [(''data'', JArray [JString ''c1'', JString ''c2''])])))])))
     = Inr [JObject [(''submission_id'', JString ''abc''), (''comment_id'', JString ''c1'')],
            JObject [(''submission_id'', JString ''abc''), (''comment_id'', JString ''c2'')]] \<and>
   fst (get_comments_id_from_submissions_id CollectRedditPSIOData (JString ''abc'') 1
     (fresh_world (scripted [Raises (HTTPError ''503''), Returns (Response (Some (JObject [(''data'', JArray [])])))])))
     = Inr [JObject [(''submission_id'', JString ''abc''), (''comment_id'', JString ''N/A'')]]"
proof -
  let ?p1 = "JObject [(''data'', JArray [JString ''c1'', JString ''c2''])]"
  let ?p2 = "JObject [(''data'', JArray [])]"
  let ?w1 = "fresh_world (scripted [Returns (Response (Some ?p1))])"
  let ?w2 = "fresh_world (scripted [Raises (HTTPError ''503''), Returns (Response (Some ?p2))])"
  have a1: "list_all attempt_fails []" and a2: "int (length ([] :: outcome list)) \<le> 1"
    and a3: "next_outcomes ?w1 (submission_id_api_call (JString ''abc'')) (Suc (length ([] :: outcome list)))
               = [] @ [Returns (Response (Some ?p1))]"
    and a4: "subscript ?p1 ''data'' = Inr (JArray [JString ''c1'', JString ''c2''])"
    by (simp_all add: next_outcomes_def fresh_world_def scripted_def)
  have b1: "list_all attempt_fails [Raises (HTTPError ''503'')]"
    and b2: "int (length [Raises (HTTPError ''503'')]) \<le> 1"
    and b3: "next_outcomes ?w2 (submission_id_api_call (JString ''abc'')) (Suc (length [Raises (HTTPError ''503'')]))
               = [Raises (HTTPError ''503'')] @ [Returns (Response (Some ?p2))]"
    and b4: "subscript ?p2 ''data'' = Inr (JArray [])"
    by (simp_all add: next_outcomes_def fresh_world_def scripted_def upt_rec)
  from comment_id_pairs [OF a1 a2 a3 a4, of CollectRedditPSIOData]
    comment_id_pairs [OF b1 b2 b3 b4, of CollectRedditPSIOData]
  show ?thesis by simp
qed

section \<open>The calls of a run of the driver\<close>

lemma except_clauses_calls: "except_clauses url ef e w = Some w' \<Longrightarrow> calls w' = calls w"
  by (cases e) (auto simp: logging_info_def build_error_text_file_def)

lemma submissions_loop_calls: "calls (snd (submissions_loop n c url w)) = calls w"
proof (induction n arbitrary: w)
  case 0
  show ?case by simp
next
  case (Suc n)
  show ?case
  proof (cases "net w (length (requests w)) url")
    case (Returns r)
    then show ?thesis by (simp add: requests_get_def time_sleep_def)
  next
    case (Raises e)
    show ?thesis
    proof (cases "except_clauses url ''submissions_error'' e (w\<lparr>requests := requests w @ [url]\<rparr>)")
      case None
      with Raises show ?thesis by (simp add: requests_get_def)
    next
      case (Some w2)
      from except_clauses_calls [OF Some] have "calls w2 = calls w" by simp
      with Raises Some Suc.IH [of w2] show ?thesis by (simp add: requests_get_def)
    qed
  qed
qed

lemma comments_loop_calls: "calls (snd (comments_loop n c url w)) = calls w"
proof (induction n arbitrary: w)
  case 0
  show ?case by simp
next
  case (Suc n)
  show ?case
  proof (cases "net w (length (requests w)) url")
    case (Returns r)
    then show ?thesis by (simp add: requests_get_def time_sleep_def)
  next
    case (Raises e)
    show ?thesis
    proof (cases "except_clauses url ''comment_error'' e (w\<lparr>requests := requests w @ [url]\<rparr>)")
      case None
      with Raises show ?thesis by (simp add: requests_get_def)
    next
      case (Some w2)
      from except_clauses_calls [OF Some] have "calls w2 = calls w" by simp
      with Raises Some Suc.IH [of w2] show ?thesis by (simp add: requests_get_def)
    qed
  qed
qed

lemma comment_ids_loop_calls: "calls (snd (comment_ids_loop n c sid acc w)) = calls w"
proof (induction n arbitrary: w)
  case 0
  show ?case by simp
next
  case (Suc n)
  let ?url = "submission_id_api_call sid"
  let ?w1 = "w\<lparr>requests := requests w @ [?url]\<rparr>"
  show ?case
  proof (cases "net w (length (requests w)) ?url")
    case (Returns r)
    show ?thesis
    proof (cases "response_json r")
      case (Inr j)
      with Returns show ?thesis
        by (simp add: requests_get_def time_sleep_def split: sum.splits)
    next
      case (Inl e)
      show ?thesis
      proof (cases "except_clauses ?url ''submission_id_error'' e (time_sleep (time_delay c) ?w1)")
        case None
        with Returns Inl show ?thesis by (simp add: requests_get_def time_sleep_def)
      next
        case (Some w2)
        from except_clauses_calls [OF Some] have "calls w2 = calls w" by (simp add: time_sleep_def)
        with Returns Inl Some Suc.IH [of w2] show ?thesis by (simp add: requests_get_def)
      qed
    qed
  next
    case (Raises e)
    show ?thesis
    proof (cases "except_clauses ?url ''submission_id_error'' e ?w1")
      case None
      with Raises show ?thesis by (simp add: requests_get_def)
    next
      case (Some w2)
      from except_clauses_calls [OF Some] have "calls w2 = calls w" by simp
      with Raises Some Suc.IH [of w2] show ?thesis by (simp add: requests_get_def)
    qed
  qed
qed

lemma get_submissions_calls:
  "calls (snd (get_submissions c q sr b a r w)) = calls w @ [Get_submissions q sr b a]"
proof -
  let ?l = "submissions_loop (nat (r + 1)) c (submissions_api_call c q sr b a) (enter (Get_submissions q sr b a) w)"
  have "calls (snd ?l) = calls w @ [Get_submissions q sr b a]"
    by (simp add: submissions_loop_calls enter_def)
  then show ?thesis
    by (cases ?l) (auto simp: get_submissions_def split: sum.splits option.splits)
qed

lemma get_comments_calls:
  "calls (snd (get_comments c ids r w)) = calls w @ [Get_comments ids]"
proof (cases "join_comma ids")
  case (Inl e)
  then show ?thesis by (simp add: get_comments_def enter_def)
next
  case (Inr s)
  let ?l = "comments_loop (nat (r + 1)) c (comments_api_call s) (enter (Get_comments ids) w)"
  have "calls (snd ?l) = calls w @ [Get_comments ids]"
    by (simp add: comments_loop_calls enter_def)
  then show ?thesis
    using Inr by (cases ?l) (auto simp: get_comments_def split: sum.splits option.splits)
qed

lemma get_comment_ids_calls:
  "calls (snd (get_comments_id_from_submissions_id c sid r w)) = calls w @ [Get_comment_ids sid]"
proof -
  let ?l = "comment_ids_loop (nat (r + 1)) c sid [] (enter (Get_comment_ids sid) w)"
  have "calls (snd ?l) = calls w @ [Get_comment_ids sid]"
    by (simp add: comment_ids_loop_calls enter_def)
  then show ?thesis
    by (cases ?l) (auto simp: get_comments_id_from_submissions_id_def split: sum.splits)
qed

lemma build_json_file_calls:
  "calls (snd (build_json_file p n w)) = calls w @ [Build_json_file p n]"
  by (simp add: build_json_file_def enter_def Let_def split: option.splits sum.splits json.splits)

lemma then_do_Inr_elim:
  "then_do m f w = (Inr y, w') \<Longrightarrow> \<exists>x w1. m w = (Inr x, w1) \<and> f x w1 = (Inr y, w')"
  by (auto simp: then_do_def split: prod.splits sum.splits)

lemma first_comment_id_comprehension:
  "comprehension (\<lambda>pair. subscript pair ''comment_id'') m = Inr ids \<Longrightarrow> index ids 0 = Inr x \<Longrightarrow>
   first_comment_id m = Inr x"
  by (cases m) (auto simp: index_def first_comment_id_def split: sum.splits if_splits)

lemma then_doE:
  assumes "then_do m f w = (Inr y, w')"
  obtains x w1 where "m w = (Inr x, w1)" and "f x w1 = (Inr y, w')"
  using then_do_Inr_elim [OF assms] by blast

lemma evaluateE:
  assumes "evaluate r w = (Inr x, w')"
  obtains "r = Inr x" and "w' = w"
  using assms by (simp add: evaluate_def)

lemma for_sub_id_body_steps:
  assumes "for_sub_id_body c today sub_id w = (Inr (), w')"
  shows "\<exists>tr. calls w' = calls w @ tr \<and> filter is_get_submissions tr = [] \<and>
           (\<forall>subs rest. submission_steps today (sub_id # subs) (tr @ rest) = submission_steps today subs rest)"
proof -
  let ?f = "''submission_id_to_comment_id_'' @ today"
  let ?g = "''comments_'' @ today"
  let ?k5 = "\<lambda>comments. then_do (evaluate (subscript comments ''data'')) (\<lambda>data. build_json_file data ?g)"
  let ?k4 = "\<lambda>ids first_id. if first_id \<noteq> JString ''N/A''
               then then_do (get_comments c ids 1) ?k5 else evaluate (Inr ())"
  let ?k3 = "\<lambda>ids. then_do (evaluate (index ids 0)) (?k4 ids)"
  let ?k2 = "\<lambda>m. then_do (evaluate (comprehension (\<lambda>comment. subscript comment ''comment_id'') m)) ?k3"
  let ?k1 = "\<lambda>m. then_do (build_json_file (JArray m) ?f) (\<lambda>_. ?k2 m)"
  have body: "for_sub_id_body c today sub_id = then_do (get_comments_id_from_submissions_id c sub_id 1) ?k1"
    by (simp only: for_sub_id_body_def)
  from assms [unfolded body]
  obtain m w1 where 1: "get_comments_id_from_submissions_id c sub_id 1 w = (Inr m, w1)"
    and r1: "?k1 m w1 = (Inr (), w')"
    by (rule then_doE)
  from r1 obtain u w2 where 2: "build_json_file (JArray m) ?f w1 = (Inr u, w2)"
    and r2: "?k2 m w2 = (Inr (), w')"
    by (rule then_doE)
  from r2 obtain ids w2a where e3: "evaluate (comprehension (\<lambda>comment. subscript comment ''comment_id'') m) w2 = (Inr ids, w2a)"
    and r3a: "?k3 ids w2a = (Inr (), w')"
    by (rule then_doE)
  from e3 have 3: "comprehension (\<lambda>comment. subscript comment ''comment_id'') m = Inr ids" and "w2a = w2"
    by (auto elim: evaluateE)
  with r3a have r3: "?k3 ids w2 = (Inr (), w')" by simp
  from r3 obtain first_id w2b where e4: "evaluate (index ids 0) w2 = (Inr first_id, w2b)"
    and r4a: "?k4 ids first_id w2b = (Inr (), w')"
    by (rule then_doE)
  from e4 have 4: "index ids 0 = Inr first_id" and "w2b = w2"
    by (auto elim: evaluateE)
  with r4a have r4: "?k4 ids first_id w2 = (Inr (), w')" by simp
  have first: "first_comment_id m = Inr first_id"
    using 3 4 by (rule first_comment_id_comprehension)
  have c1: "calls w1 = calls w @ [Get_comment_ids sub_id]"
    using 1 get_comment_ids_calls [of c sub_id 1 w] by simp
  have c2: "calls w2 = calls w @ [Get_comment_ids sub_id, Build_json_file (JArray m) ?f]"
    using 2 build_json_file_calls [of "JArray m" ?f w1] c1 by simp
  show ?thesis
  proof (cases "first_id = JString ''N/A''")
    case True
    with r4 have w': "w' = w2" by (simp add: evaluate_def)
    have "submission_steps today (sub_id # subs) ([Get_comment_ids sub_id, Build_json_file (JArray m) ?f] @ rest)
        = submission_steps today subs rest" for subs rest
      using first True by simp
    with c2 w' show ?thesis
      by (intro exI [of _ "[Get_comment_ids sub_id, Build_json_file (JArray m) ?f]"]) simp
  next
    case False
    with r4 have r5: "then_do (get_comments c ids 1) ?k5 w2 = (Inr (), w')"
      by simp
    from r5 obtain comments w3 where 5: "get_comments c ids 1 w2 = (Inr comments, w3)"
      and r6: "?k5 comments w3 = (Inr (), w')"
      by (rule then_doE)
    from r6 obtain data w3a where e6: "evaluate (subscript comments ''data'') w3 = (Inr data, w3a)"
      and r7: "build_json_file data ?g w3a = (Inr (), w')"
      by (rule then_doE)
    from e6 have "w3a = w3" by (auto elim: evaluateE)
    with r7 have 7: "build_json_file data ?g w3 = (Inr (), w')" by simp
    have c3: "calls w3 = calls w2 @ [Get_comments ids]"
      using 5 get_comments_calls [of c ids 1 w2] by simp
    have c4: "calls w' = calls w3 @ [Build_json_file data ?g]"
      using 7 build_json_file_calls [of data ?g w3] by simp
    have "submission_steps today (sub_id # subs) ([Get_comment_ids sub_id, Build_json_file (JArray m) ?f,
            Get_comments ids, Build_json_file data ?g] @ rest)
        = submission_steps today subs rest" for subs rest
      using first False 3 by simp
    with c2 c3 c4 show ?thesis
      by (intro exI [of _ "[Get_comment_ids sub_id, Build_json_file (JArray m) ?f,
            Get_comments ids, Build_json_file data ?g]"]) simp
  qed
qed

lemma for_sub_id_steps:
  "for_sub_id c today subs w = (Inr (), w') \<Longrightarrow>
   \<exists>tr. calls w' = calls w @ tr \<and> filter is_get_submissions tr = [] \<and>
        (\<forall>rest. submission_steps today subs (tr @ rest) = Some rest)"
proof (induction subs arbitrary: w)
  case Nil
  then show ?case by (simp add: evaluate_def)
next
  case (Cons sub_id subs)
  from Cons.prems have "then_do (for_sub_id_body c today sub_id) (\<lambda>_. for_sub_id c today subs) w = (Inr (), w')"
    by simp
  then obtain u w1 where b: "for_sub_id_body c today sub_id w = (Inr u, w1)"
    and r: "for_sub_id c today subs w1 = (Inr (), w')"
    by (rule then_doE)
  from b have "for_sub_id_body c today sub_id w = (Inr (), w1)" by simp
  from for_sub_id_body_steps [OF this]
  obtain tr1 where 1: "calls w1 = calls w @ tr1" "filter is_get_submissions tr1 = []"
    "\<And>subs rest. submission_steps today (sub_id # subs) (tr1 @ rest) = submission_steps today subs rest"
    by blast
  from Cons.IH [OF r]
  obtain tr2 where 2: "calls w' = calls w1 @ tr2" "filter is_get_submissions tr2 = []"
    "\<And>rest. submission_steps today subs (tr2 @ rest) = Some rest"
    by blast
  show ?case
    using 1 2 by (intro exI [of _ "tr1 @ tr2"]) simp
qed

lemma for_idx_body_in_range:
  assumes "for_idx_body rh today q sr dr idx w = (Inr (), w')"
  shows "Suc idx < length dr"
proof (rule ccontr)
  assume "\<not> Suc idx < length dr"
  then have "fst (for_idx_body rh today q sr dr idx w) = Inl IndexError"
    by (simp add: for_idx_body_def index_def evaluate_def then_do_def)
  with assms show False by simp
qed

lemma for_idx_body_steps:
  assumes "for_idx_body (Some c) today q sr dr idx w = (Inr (), w')"
  shows "\<exists>tr. calls w' = calls w @ tr \<and>
           filter is_get_submissions tr = [Get_submissions q sr (dr ! idx) (dr ! Suc idx)] \<and>
           (\<forall>ds rest. window_steps today q sr (dr ! idx # dr ! Suc idx # ds) (tr @ rest) =
                      window_steps today q sr (dr ! Suc idx # ds) rest)"
proof -
  let ?a = "dr ! idx" and ?b = "dr ! Suc idx"
  let ?h = "''submissions_'' @ today"
  let ?k4 = "\<lambda>items. then_do (evaluate (comprehension (\<lambda>submission_id. subscript submission_id ''id'') items))
               (\<lambda>subs_id. for_sub_id c today subs_id)"
  let ?k3 = "\<lambda>data. then_do (evaluate (py_iter data)) ?k4"
  let ?k2 = "\<lambda>data. then_do (build_json_file data ?h) (\<lambda>_. ?k3 data)"
  let ?k1 = "\<lambda>submissions. then_do (evaluate (subscript submissions ''data'')) ?k2"
  have lt: "Suc idx < length dr"
    using assms by (rule for_idx_body_in_range)
  have body: "for_idx_body (Some c) today q sr dr idx = then_do (get_submissions c q sr ?a ?b 1) ?k1"
    using lt by (simp add: for_idx_body_def index_def)
  from assms [unfolded body]
  obtain submissions w1 where 1: "get_submissions c q sr ?a ?b 1 w = (Inr submissions, w1)"
    and r1: "?k1 submissions w1 = (Inr (), w')"
    by (rule then_doE)
  from r1 obtain data w1a where e2: "evaluate (subscript submissions ''data'') w1 = (Inr data, w1a)"
    and r2a: "?k2 data w1a = (Inr (), w')"
    by (rule then_doE)
  from e2 have "w1a = w1" by (auto elim: evaluateE)
  with r2a have r2: "?k2 data w1 = (Inr (), w')" by simp
  from r2 obtain u w2 where 3: "build_json_file data ?h w1 = (Inr u, w2)"
    and r3: "?k3 data w2 = (Inr (), w')"
    by (rule then_doE)
  from r3 obtain items w2a where e4: "evaluate (py_iter data) w2 = (Inr items, w2a)"
    and r4a: "?k4 items w2a = (Inr (), w')"
    by (rule then_doE)
  from e4 have 4: "py_iter data = Inr items" and "w2a = w2" by (auto elim: evaluateE)
  with r4a have r4: "?k4 items w2 = (Inr (), w')" by simp
  from r4 obtain subs_id w2b
    where e5: "evaluate (comprehension (\<lambda>submission_id. subscript submission_id ''id'') items) w2 = (Inr subs_id, w2b)"
    and r5a: "for_sub_id c today subs_id w2b = (Inr (), w')"
    by (rule then_doE)
  from e5 have 5: "comprehension (\<lambda>submission_id. subscript submission_id ''id'') items = Inr subs_id"
    and "w2b = w2" by (auto elim: evaluateE)
  with r5a have r5: "for_sub_id c today subs_id w2 = (Inr (), w')" by simp
  from for_sub_id_steps [OF r5]
  obtain tr2 where tr2: "calls w' = calls w2 @ tr2" "filter is_get_submissions tr2 = []"
    "\<And>rest. submission_steps today subs_id (tr2 @ rest) = Some rest"
    by blast
  have c1: "calls w1 = calls w @ [Get_submissions q sr ?a ?b]"
    using 1 get_submissions_calls [of c q sr ?a ?b 1 w] by simp
  have c2: "calls w2 = calls w @ [Get_submissions q sr ?a ?b, Build_json_file data ?h]"
    using 3 build_json_file_calls [of data ?h w1] c1 by simp
  have "window_steps today q sr (?a # ?b # ds)
          ((Get_submissions q sr ?a ?b # Build_json_file data ?h # tr2) @ rest) =
        window_steps today q sr (?b # ds) rest" for ds rest
    using 4 5 tr2(3) by simp
  with c2 tr2(1,2) show ?thesis
    by (intro exI [of _ "Get_submissions q sr ?a ?b # Build_json_file data ?h # tr2"]) simp
qed

lemma for_idx_steps:
  "for_idx (Some c) today q sr dr [i..<i + k] w = (Inr (), w') \<Longrightarrow>
   (0 < k \<longrightarrow> i + k < length dr) \<and>
   (\<exists>tr. calls w' = calls w @ tr \<and>
      filter is_get_submissions tr = map (\<lambda>j. Get_submissions q sr (dr ! j) (dr ! Suc j)) [i..<i + k] \<and>
      (\<forall>rest. window_steps today q sr (drop i dr) (tr @ rest) =
              window_steps today q sr (drop (i + k) dr) rest))"
proof (induction k arbitrary: i w)
  case 0
  then show ?case by (simp add: evaluate_def)
next
  case (Suc k)
  have upt: "[i..<i + Suc k] = i # [Suc i..<Suc i + k]"
    by (simp add: upt_conv_Cons)
  from Suc.prems [unfolded upt]
  have "then_do (for_idx_body (Some c) today q sr dr i) (\<lambda>_. for_idx (Some c) today q sr dr [Suc i..<Suc i + k]) w
          = (Inr (), w')"
    by simp
  then obtain u w1 where b: "for_idx_body (Some c) today q sr dr i w = (Inr u, w1)"
    and r: "for_idx (Some c) today q sr dr [Suc i..<Suc i + k] w1 = (Inr (), w')"
    by (rule then_doE)
  from b have b': "for_idx_body (Some c) today q sr dr i w = (Inr (), w1)" by simp
  have lt: "Suc i < length dr"
    using b' by (rule for_idx_body_in_range)
  from for_idx_body_steps [OF b']
  obtain tr1 where tr1: "calls w1 = calls w @ tr1"
    "filter is_get_submissions tr1 = [Get_submissions q sr (dr ! i) (dr ! Suc i)]"
    "\<And>ds rest. window_steps today q sr (dr ! i # dr ! Suc i # ds) (tr1 @ rest) =
                window_steps today q sr (dr ! Suc i # ds) rest"
    by blast
  from Suc.IH [OF r]
  obtain tr2 where len: "0 < k \<longrightarrow> Suc i + k < length dr"
    and tr2: "calls w' = calls w1 @ tr2"
    "filter is_get_submissions tr2 = map (\<lambda>j. Get_submissions q sr (dr ! j) (dr ! Suc j)) [Suc i..<Suc i + k]"
    "\<And>rest. window_steps today q sr (drop (Suc i) dr) (tr2 @ rest) =
            window_steps today q sr (drop (Suc i + k) dr) rest"
    by blast
  have d1: "drop i dr = dr ! i # dr ! Suc i # drop (Suc (Suc i)) dr"
    using lt by (simp add: Cons_nth_drop_Suc)
  have d2: "drop (Suc i) dr = dr ! Suc i # drop (Suc (Suc i)) dr"
    using lt by (simp add: Cons_nth_drop_Suc)
  have steps: "window_steps today q sr (drop i dr) ((tr1 @ tr2) @ rest) =
               window_steps today q sr (drop (i + Suc k) dr) rest" for rest
  proof -
    have "window_steps today q sr (drop i dr) ((tr1 @ tr2) @ rest) =
          window_steps today q sr (drop (Suc i) dr) (tr2 @ rest)"
      unfolding d1 d2 append_assoc by (rule tr1(3))
    also have "\<dots> = window_steps today q sr (drop (Suc i + k) dr) rest"
      by (rule tr2(3))
    finally show ?thesis by simp
  qed
  have "i + Suc k < length dr"
    using lt len by (cases k) auto
  moreover have "calls w' = calls w @ tr1 @ tr2"
    using tr1(1) tr2(1) by simp
  moreover have "filter is_get_submissions (tr1 @ tr2) =
      map (\<lambda>j. Get_submissions q sr (dr ! j) (dr ! Suc j)) [i..<i + Suc k]"
    unfolding upt using tr1(2) tr2(2) by simp
  ultimately show ?case
    using steps by (intro conjI impI exI [of _ "tr1 @ tr2"] allI) simp_all
qed

lemma window_steps_end: "length ds \<le> 1 \<Longrightarrow> window_steps today q sr ds []"
  by (cases ds; cases "tl ds") auto

lemma get_data_source_key: "get_data_source ''reddit-historical'' = Some CollectRedditPSIOData"
  by (simp add: get_data_source_def lower_key)


text \<open>
  C8: every run of the driver that completes (that no exception ends), over a day-bucket list of length \<open>L\<close>,
  performs exactly \<open>L - 1\<close> submission fetches, one per consecutive pair of time stamps
  and in their order (window \<open>i\<close> uses the time stamps \<open>i\<close> and \<open>i + 1\<close>); each is
  followed by the export of its submissions and, for each extracted submission id in
  turn, by the fetch and the export of the comment-id mapping, and then by the fetch
  and the export of the comments if and only if the first comment id of the mapping is
  not \<open>N/A\<close>.
\<close>

theorem run_reddit_psio_query_steps:
  assumes "fst (run_reddit_psio_query mktime curr_datetime query subreddit start_date end_date w) = Inr ()"
  shows "\<exists>date_range tr.
           make_date_range mktime start_date end_date = Inr date_range \<and>
           calls (snd (run_reddit_psio_query mktime curr_datetime query subreddit start_date end_date w)) =
             calls w @ tr \<and>
           length (filter is_get_submissions tr) = length date_range - 1 \<and>
           filter is_get_submissions tr =
             map (\<lambda>i. Get_submissions query subreddit (date_range ! i) (date_range ! Suc i))
               [0..<length date_range - 1] \<and>
           window_steps curr_datetime query subreddit date_range tr"
proof -
  obtain w' where run: "run_reddit_psio_query mktime curr_datetime query subreddit start_date end_date w = (Inr (), w')"
    using assms by (cases "run_reddit_psio_query mktime curr_datetime query subreddit start_date end_date w") auto
  from run [unfolded run_reddit_psio_query_def get_data_source_key]
  obtain dr w0 where e: "evaluate (make_date_range mktime start_date end_date) w = (Inr dr, w0)"
    and r0: "for_idx (Some CollectRedditPSIOData) curr_datetime query subreddit dr [0..<length dr - 1] w0 = (Inr (), w')"
    by (rule then_doE)
  from e have dr: "make_date_range mktime start_date end_date = Inr dr" and "w0 = w"
    by (auto elim: evaluateE)
  with r0 have "for_idx (Some CollectRedditPSIOData) curr_datetime query subreddit dr [0..<0 + (length dr - 1)] w = (Inr (), w')"
    by simp
  from for_idx_steps [OF this]
  obtain tr where tr: "calls w' = calls w @ tr"
    "filter is_get_submissions tr =
       map (\<lambda>j. Get_submissions query subreddit (dr ! j) (dr ! Suc j)) [0..<0 + (length dr - 1)]"
    "\<And>rest. window_steps curr_datetime query subreddit (drop 0 dr) (tr @ rest) =
            window_steps curr_datetime query subreddit (drop (0 + (length dr - 1)) dr) rest"
    by blast
  have "window_steps curr_datetime query subreddit (drop (length dr - 1) dr) []"
    by (rule window_steps_end) simp
  with tr(3) [of "[]"] have ok: "window_steps curr_datetime query subreddit dr tr" by simp
  have n: "length (filter is_get_submissions tr) = length dr - 1"
    unfolding tr(2) by simp
  show ?thesis
    using dr tr(1,2) n ok run by (intro exI [of _ dr] exI [of _ tr]) simp
qed

theorem run_reddit_psio_query_steps_witness:
  "fst (run_reddit_psio_query utc ''2020-04-01'' ''covid'' ''Canada'' 737425 737426
          (fresh_world (scripted one_day_script))) = Inr () \<and>
   make_date_range utc 737425 737426 = Inr [''1577836800'', ''1577923200''] \<and>
   calls (snd (run_reddit_psio_query utc ''2020-04-01'' ''covid'' ''Canada'' 737425 737426
          (fresh_world (scripted one_day_script)))) =
     [Get_submissions ''covid'' ''Canada'' ''1577836800'' ''1577923200'',
      Build_json_file (JArray [JObject [(''id'', JString ''s1'')], JObject [(''id'', JInt 7)]])
        ''submissions_2020-04-01'',
      Get_comment_ids (JString ''s1''),
      Build_json_file (JArray [JObject [(''submission_id'', JString ''s1''), (''comment_id'', JString ''c1'')]])
        ''submission_id_to_comment_id_2020-04-01'',
      Get_comments [JString ''c1''],
      Build_json_file (JArray [JObject [(''id'', JString ''c1'')]]) ''comments_2020-04-01'',
      Get_comment_ids (JInt 7),
      Build_json_file (JArray [JObject [(''submission_id'', JInt 7), (''comment_id'', JString ''N/A'')]])
        ''submission_id_to_comment_id_2020-04-01''] \<and>
   window_steps ''2020-04-01'' ''covid'' ''Canada'' [''1577836800'', ''1577923200'']
     [Get_submissions ''covid'' ''Canada'' ''1577836800'' ''1577923200'',
      Build_json_file (JArray [JObject [(''id'', JString ''s1'')], JObject [(''id'', JInt 7)]])
        ''submissions_2020-04-01'',
      Get_comment_ids (JString ''s1''),
      Build_json_file (JArray [JObject [(''submission_id'', JString ''s1''), (''comment_id'', JString ''c1'')]])
        ''submission_id_to_comment_id_2020-04-01'',
      Get_comments [JString ''c1''],
      Build_json_file (JArray [JObject [(''id'', JString ''c1'')]]) ''comments_2020-04-01'',
      Get_comment_ids (JInt 7),
      Build_json_file (JArray [JObject [(''submission_id'', JInt 7), (''comment_id'', JString ''N/A'')]])
        ''submission_id_to_comment_id_2020-04-01'']"
proof -
  let ?w = "fresh_world (scripted one_day_script)"
  let ?run = "run_reddit_psio_query utc ''2020-04-01'' ''covid'' ''Canada'' 737425 737426 ?w"
  let ?tr = "[Get_submissions ''covid'' ''Canada'' ''1577836800'' ''1577923200'',
      Build_json_file (JArray [JObject [(''id'', JString ''s1'')], JObject [(''id'', JInt 7)]])
        ''submissions_2020-04-01'',
      Get_comment_ids (JString ''s1''),
      Build_json_file (JArray [JObject [(''submission_id'', JString ''s1''), (''comment_id'', JString ''c1'')]])
        ''submission_id_to_comment_id_2020-04-01'',
      Get_comments [JString ''c1''],
      Build_json_file (JArray [JObject [(''id'', JString ''c1'')]]) ''comments_2020-04-01'',
      Get_comment_ids (JInt 7),
      Build_json_file (JArray [JObject [(''submission_id'', JInt 7), (''comment_id'', JString ''N/A'')]])
        ''submission_id_to_comment_id_2020-04-01'']"
  have dr: "make_date_range utc 737425 737426 = Inr [''1577836800'', ''1577923200'']"
    by (simp add: make_date_range_def upto.simps date_add_days_def valid_date_def fixed_offset_def utc_def
          str_int_def digits.simps digit_char_def)
  have run: "?run = for_idx_body (Some CollectRedditPSIOData) ''2020-04-01'' ''covid'' ''Canada''
      [''1577836800'', ''1577923200''] 0 ?w"
    by (simp add: run_reddit_psio_query_def dr get_data_source_key then_do_def evaluate_def
          split: prod.splits sum.splits)
  have h: "fst ?run = Inr ()"
    unfolding run
    by (simp add: for_idx_body_def index_def then_do_def evaluate_def
        get_submissions_def get_comments_def get_comments_id_from_submissions_id_def
        numeral_2_eq_2 requests_get_def scripted_def one_day_script_def fresh_world_def
        time_sleep_def enter_def build_json_file_def Let_def
        for_sub_id_body_def join_comma_def id_pair_def)
  have c: "calls (snd ?run) = ?tr"
    unfolding run
    by (simp add: for_idx_body_def index_def then_do_def evaluate_def
        get_submissions_def get_comments_def get_comments_id_from_submissions_id_def
        numeral_2_eq_2 requests_get_def scripted_def one_day_script_def fresh_world_def
        time_sleep_def enter_def build_json_file_def Let_def
        for_sub_id_body_def join_comma_def id_pair_def)
  from run_reddit_psio_query_steps [OF h]
  obtain date_range tr where 1: "make_date_range utc 737425 737426 = Inr date_range"
    and 2: "calls (snd ?run) = calls ?w @ tr"
    and 3: "window_steps ''2020-04-01'' ''covid'' ''Canada'' date_range tr"
    by blast
  from 1 dr have "date_range = [''1577836800'', ''1577923200'']" by simp
  moreover from 2 c have "tr = ?tr" by (simp add: fresh_world_def)
  ultimately have "window_steps ''2020-04-01'' ''covid'' ''Canada'' [''1577836800'', ''1577923200''] ?tr"
    using 3 by simp
  with h dr c show ?thesis by (intro conjI)
qed

end
